theory Spec2Isabelle
  imports Main "HOL-Library.Char_ord" "HOL-Library.List_Lexorder" "HOL-Library.Multiset"
begin

section \<open>Python values used by the program\<close>

text \<open>
  Strings are lists of characters; a character of the model is a code point below 256.
  Exceptions are values: every function that can raise returns a sum whose left
  injection carries the exception.
\<close>

datatype py_error =
    FileNotFoundError string
  | NotADirectoryError string
  | ValueError string
  | TypeError string
  | OSError string
  | OverflowError string
  | NotImplementedError string
  | CsvError string
  | StopIteration
  | Exception string

text \<open>
  \<^verbatim>\<open>xs[i:j]\<close> for integer bounds: a negative bound counts from the end, both bounds
  are clamped to the sequence, and an empty range gives the empty sequence. Slicing
  never raises.
\<close>

definition py_slice :: "'a list \<Rightarrow> int \<Rightarrow> int \<Rightarrow> 'a list" where
  "py_slice xs i j =
     (let n = int (length xs);
          lo = (if i < 0 then max 0 (i + n) else min i n);
          hi = (if j < 0 then max 0 (j + n) else min j n)
      in if lo < hi then take (nat (hi - lo)) (drop (nat lo) xs) else [])"

text \<open>\<^verbatim>\<open>str.isspace\<close> on one character, for code points below 256.\<close>

definition py_isspace :: "char \<Rightarrow> bool" where
  "py_isspace c =
     (of_char c \<in> {9, 10, 11, 12, 13, 28, 29, 30, 31, 32, 133, 160 :: nat})"

definition strip :: "string \<Rightarrow> string" where
  "strip s = rev (dropWhile py_isspace (rev (dropWhile py_isspace s)))"

text \<open>\<^verbatim>\<open>str.lower\<close>, for code points below 256 (A-Z and the accented capitals).\<close>

definition lower_char :: "char \<Rightarrow> char" where
  "lower_char c =
     (let k = (of_char c :: nat)
      in if (65 \<le> k \<and> k \<le> 90) \<or> (192 \<le> k \<and> k \<le> 222 \<and> k \<noteq> 215)
         then char_of (k + 32) else c)"

definition lower :: "string \<Rightarrow> string" where
  "lower s = map lower_char s"

text \<open>\<^verbatim>\<open>sep.join(xs)\<close> and \<^verbatim>\<open>s.split(c)\<close> for a one-character separator.\<close>

fun join :: "string \<Rightarrow> string list \<Rightarrow> string" where
  "join sep [] = []"
| "join sep [x] = x"
| "join sep (x # y # ys) = x @ sep @ join sep (y # ys)"

fun split_on :: "char \<Rightarrow> string \<Rightarrow> string list" where
  "split_on c [] = [[]]"
| "split_on c (x # xs) =
     (if x = c then [] # split_on c xs
      else (case split_on c xs of
              [] \<Rightarrow> [[x]]
            | r # rs \<Rightarrow> (x # r) # rs))"

text \<open>\<^verbatim>\<open>s.rfind(c)\<close>: the last index of the character, or -1.\<close>

fun rfind :: "string \<Rightarrow> char \<Rightarrow> int" where
  "rfind [] c = -1"
| "rfind (x # xs) c =
     (let r = rfind xs c
      in if r \<ge> 0 then r + 1 else if x = c then 0 else -1)"

text \<open>
  Python values as \<^verbatim>\<open>json.load\<close> produces them and as the term set holds them. A
  dictionary is the list of its items in insertion order. Numbers are integers in the
  model.
\<close>

datatype pyval =
    PNone
  | PBool bool
  | PInt int
  | PStr string
  | PList "pyval list"
  | PDict "(pyval \<times> pyval) list"

text \<open>
  Keys of a dictionary: lists and dictionaries are unhashable; \<^verbatim>\<open>True\<close> and \<^verbatim>\<open>1\<close>
  (and \<^verbatim>\<open>False\<close> and \<^verbatim>\<open>0\<close>) are the same key.
\<close>

fun hashable :: "pyval \<Rightarrow> bool" where
  "hashable (PList xs) = False"
| "hashable (PDict kvs) = False"
| "hashable v = True"

fun key_norm :: "pyval \<Rightarrow> pyval" where
  "key_norm (PBool b) = PInt (if b then 1 else 0)"
| "key_norm v = v"

definition key_eq :: "pyval \<Rightarrow> pyval \<Rightarrow> bool" where
  "key_eq a b = (key_norm a = key_norm b)"

fun dict_get :: "(pyval \<times> pyval) list \<Rightarrow> pyval \<Rightarrow> pyval option" where
  "dict_get [] k = None"
| "dict_get ((k', v) # d) k = (if key_eq k' k then Some v else dict_get d k)"

text \<open>
  \<^verbatim>\<open>d[k] = v\<close> on a hashable key: an existing key keeps its place and gets the new
  value, a new key goes to the end.
\<close>

fun dict_store :: "(pyval \<times> pyval) list \<Rightarrow> pyval \<Rightarrow> pyval \<Rightarrow> (pyval \<times> pyval) list" where
  "dict_store [] k v = [(k, v)]"
| "dict_store ((k', v') # d) k v =
     (if key_eq k' k then (k', v) # d else (k', v') # dict_store d k v)"

definition dict_setitem ::
  "(pyval \<times> pyval) list \<Rightarrow> pyval \<Rightarrow> pyval \<Rightarrow> py_error + (pyval \<times> pyval) list" where
  "dict_setitem d k v =
     (if hashable k then Inr (dict_store d k v) else Inl (TypeError ''unhashable type''))"




section \<open>Paths (pathlib, POSIX flavour)\<close>

text \<open>
  A path is its anchor (empty or a slash) and its components. \<open>parse_path\<close> is the
  constructor \<^verbatim>\<open>Path(s)\<close>: empty components and single dots are dropped. (A path
  that starts with exactly two slashes, which the library keeps apart, is read as one
  that starts with a single slash.)
\<close>

datatype path = Path (anchor: string) (parts: "string list")

definition parse_path :: "string \<Rightarrow> path" where
  "parse_path s =
     Path (if s \<noteq> [] \<and> hd s = CHR ''/'' then ''/'' else [])
          (filter (\<lambda>c. c \<noteq> [] \<and> c \<noteq> ''.'') (split_on CHR ''/'' s))"

definition path_name :: "path \<Rightarrow> string" where
  "path_name p = (if parts p = [] then [] else last (parts p))"

definition path_str :: "path \<Rightarrow> string" where
  "path_str p =
     (if anchor p = [] \<and> parts p = [] then ''.''
      else anchor p @ join ''/'' (parts p))"

definition path_suffix :: "path \<Rightarrow> string" where
  "path_suffix p =
     (let name = path_name p; i = rfind name CHR ''.''
      in if 0 < i \<and> i < int (length name) - 1 then py_slice name i (int (length name))
         else [])"

definition joinpath :: "path \<Rightarrow> string list \<Rightarrow> path" where
  "joinpath p rel = Path (anchor p) (parts p @ rel)"


section \<open>pdf_processor\<close>

record PDFMatch =
  term_name :: string
  matched_text :: string
  page_number :: nat
  context_before :: string
  context_after :: string
  position :: nat

text \<open>
  The regular-expression library is a parameter of the matcher. \<open>re_compile\<close> is
  \<^verbatim>\<open>re.compile(pattern, re.IGNORECASE | re.MULTILINE)\<close> on a string: it gives the
  compiled pattern, or raises \<^verbatim>\<open>re.error\<close> with a message, or raises another
  exception (\<^verbatim>\<open>OverflowError\<close>, \<^verbatim>\<open>RecursionError\<close>). \<open>re_finditer\<close> gives the
  spans \<^verbatim>\<open>(match.start(), match.end())\<close> in the order \<^verbatim>\<open>finditer\<close> yields them.
\<close>

datatype 'r compiled = Compiled 'r | ReError string | Raised py_error

record 'r re_module =
  re_compile :: "string \<Rightarrow> 'r compiled"
  re_finditer :: "'r \<Rightarrow> string \<Rightarrow> (nat \<times> nat) list"

text \<open>
  A pattern of the term set is any value that the loader left there. On a value that is
  not a string \<^verbatim>\<open>re.compile\<close> raises \<^verbatim>\<open>TypeError\<close>: from the lookup in its cache
  when the value is unhashable, from its check of the argument otherwise.
\<close>

definition compile_pattern :: "'r re_module \<Rightarrow> pyval \<Rightarrow> 'r compiled" where
  "compile_pattern re pattern =
     (case pattern of
        PStr s \<Rightarrow> re_compile re s
      | PList xs \<Rightarrow> Raised (TypeError (''unhashable type: '' @ [CHR 0x27] @ ''list'' @ [CHR 0x27]))
      | PDict kvs \<Rightarrow> Raised (TypeError (''unhashable type: '' @ [CHR 0x27] @ ''dict'' @ [CHR 0x27]))
      | _ \<Rightarrow> Raised (TypeError ''first argument must be string or compiled pattern''))"

text \<open>
  What a call does besides returning or raising: the calls of \<^verbatim>\<open>re.compile\<close> with their
  pattern, and the warnings printed (term name and error message), in the order they
  happen.
\<close>

datatype event = ReCompile pyval | PrintWarning string string

text \<open>The body of the inner loop: the record built for one match.\<close>

definition make_match :: "string \<Rightarrow> string \<Rightarrow> nat \<Rightarrow> int \<Rightarrow> int \<Rightarrow> nat \<times> nat \<Rightarrow> PDFMatch" where
  "make_match text name page cb ca span =
     (let start_pos = int (fst span);
          end_pos = int (snd span);
          context_start = max 0 (start_pos - cb);
          context_end = min (int (length text)) (end_pos + ca);
          before_text = py_slice text context_start start_pos;
          after_text = py_slice text end_pos context_end
      in \<lparr> term_name = name,
           matched_text = py_slice text start_pos end_pos,
           page_number = page,
           context_before = before_text,
           context_after = after_text,
           position = fst span \<rparr>)"

text \<open>The inner loop: one append per match, in the order of the iterator.\<close>

fun scan_matches ::
  "PDFMatch list \<Rightarrow> string \<Rightarrow> string \<Rightarrow> nat \<Rightarrow> int \<Rightarrow> int \<Rightarrow> (nat \<times> nat) list \<Rightarrow> PDFMatch list" where
  "scan_matches matches text name page cb ca [] = matches"
| "scan_matches matches text name page cb ca (span # spans) =
     scan_matches (matches @ [make_match text name page cb ca span]) text name page cb ca spans"

text \<open>
  The outer loop over \<^verbatim>\<open>term_dict.items()\<close>, with the list of matches and the events
  so far. The handler catches \<^verbatim>\<open>re.error\<close> only: such a pattern prints a warning
  and is skipped, and any other exception of \<^verbatim>\<open>re.compile\<close> leaves the function. The
  result is the list returned or the exception raised, with the events of the call.
\<close>

fun search_loop ::
  "'r re_module \<Rightarrow> PDFMatch list \<times> event list \<Rightarrow> string \<Rightarrow> (string \<times> pyval) list \<Rightarrow>
   nat \<Rightarrow> int \<Rightarrow> int \<Rightarrow> (py_error + PDFMatch list) \<times> event list" where
  "search_loop re acc text [] page cb ca = (Inr (fst acc), snd acc)"
| "search_loop re acc text ((name, pattern) # items) page cb ca =
     (case compile_pattern re pattern of
        Compiled regex \<Rightarrow>
          search_loop re
            (scan_matches (fst acc) text name page cb ca (re_finditer re regex text),
             snd acc @ [ReCompile pattern])
            text items page cb ca
      | ReError e \<Rightarrow>
          search_loop re (fst acc, snd acc @ [ReCompile pattern, PrintWarning name e])
            text items page cb ca
      | Raised e \<Rightarrow> (Inl e, snd acc @ [ReCompile pattern]))"

definition search_text_for_patterns ::
  "'r re_module \<Rightarrow> string \<Rightarrow> (string \<times> pyval) list \<Rightarrow> nat \<Rightarrow> int \<Rightarrow> int \<Rightarrow>
   (py_error + PDFMatch list) \<times> event list" where
  "search_text_for_patterns re text term_dict page cb ca =
     search_loop re ([], []) text term_dict page cb ca"

text \<open>
  The PDF library is a parameter: \<open>fitz\<close> gives the page texts of a file in page order,
  or the text of the exception raised while opening or reading it.
  \<open>extract_text_from_pdf\<close> numbers the pages from 1 and wraps any failure in an
  exception that names the file.
\<close>

definition extract_text_from_pdf ::
  "(path \<Rightarrow> string + string list) \<Rightarrow> path \<Rightarrow> py_error + (nat \<times> string) list" where
  "extract_text_from_pdf fitz pdf_path =
     (case fitz pdf_path of
        Inl e \<Rightarrow> Inl (Exception (''Failed to extract text from '' @ path_str pdf_path @ '': '' @ e))
      | Inr texts \<Rightarrow> Inr (zip (map Suc [0 ..< length texts]) texts))"

text \<open>
  The loop over the pages of one file. An exception of the matcher on a page leaves the
  loop and the function.
\<close>

fun page_loop ::
  "'r re_module \<Rightarrow> PDFMatch list \<times> event list \<Rightarrow> (nat \<times> string) list \<Rightarrow>
   (string \<times> pyval) list \<Rightarrow> int \<Rightarrow> int \<Rightarrow> (py_error + PDFMatch list) \<times> event list" where
  "page_loop re acc [] term_dict cb ca = (Inr (fst acc), snd acc)"
| "page_loop re acc ((page_num, page_text) # pages) term_dict cb ca =
     (let r = search_text_for_patterns re page_text term_dict page_num cb ca
      in case fst r of
           Inl e \<Rightarrow> (Inl e, snd acc @ snd r)
         | Inr page_matches \<Rightarrow>
             page_loop re (fst acc @ page_matches, snd acc @ snd r) pages term_dict cb ca)"

definition process_pdf_file ::
  "'r re_module \<Rightarrow> (path \<Rightarrow> string + string list) \<Rightarrow> path \<Rightarrow> (string \<times> pyval) list \<Rightarrow>
   int \<Rightarrow> int \<Rightarrow> (py_error + PDFMatch list) \<times> event list" where
  "process_pdf_file re fitz file_path term_dict cb ca =
     (case extract_text_from_pdf fitz file_path of
        Inl e \<Rightarrow> (Inl e, [])
      | Inr page_texts \<Rightarrow> page_loop re ([], []) page_texts term_dict cb ca)"


section \<open>result_aggregator\<close>

text \<open>An aggregated result is a match with the name and the full path of its file.\<close>

record AggregatedResult = PDFMatch +
  file_name :: string
  file_path :: string

record ResultAggregator =
  agg_context_before :: int
  agg_context_after :: int
  results :: "AggregatedResult list"
  match_counts :: "string \<rightharpoonup> nat"
  file_count :: nat
  total_pages :: int

definition new_aggregator :: "int \<Rightarrow> int \<Rightarrow> ResultAggregator" where
  "new_aggregator cb ca =
     \<lparr> agg_context_before = cb, agg_context_after = ca, results = [],
       match_counts = Map.empty, file_count = 0, total_pages = 0 \<rparr>"

definition make_result :: "path \<Rightarrow> PDFMatch \<Rightarrow> AggregatedResult" where
  "make_result fp m =
     \<lparr> term_name = term_name m,
       matched_text = matched_text m,
       page_number = page_number m,
       context_before = context_before m,
       context_after = context_after m,
       position = position m,
       file_name = path_name fp,
       file_path = path_str fp \<rparr>"

text \<open>The loop of \<open>add_results\<close>: append the result, count it under its term.\<close>

fun append_results :: "ResultAggregator \<Rightarrow> path \<Rightarrow> PDFMatch list \<Rightarrow> ResultAggregator" where
  "append_results a fp [] = a"
| "append_results a fp (m # ms) =
     append_results
       (a\<lparr> results := results a @ [make_result fp m],
           match_counts := (match_counts a)(term_name m \<mapsto>
              (case match_counts a (term_name m) of None \<Rightarrow> 0 | Some c \<Rightarrow> c) + 1) \<rparr>)
       fp ms"

definition add_results :: "ResultAggregator \<Rightarrow> path \<Rightarrow> PDFMatch list \<Rightarrow> int \<Rightarrow> ResultAggregator" where
  "add_results a fp matches page_count =
     (let a1 = (if matches \<noteq> [] then a\<lparr> file_count := file_count a + 1 \<rparr> else a);
          a2 = (if page_count > 0 then a1\<lparr> total_pages := total_pages a1 + page_count \<rparr> else a1)
      in append_results a2 fp matches)"


text \<open>
  \<open>get_results_by_file\<close>: a dictionary from file name to the results of that name, as
  an association list in the order the names are first seen.
\<close>

fun group_insert :: "string \<Rightarrow> 'a \<Rightarrow> (string \<times> 'a list) list \<Rightarrow> (string \<times> 'a list) list" where
  "group_insert k v [] = [(k, [v])]"
| "group_insert k v ((k', vs) # rest) =
     (if k' = k then (k', vs @ [v]) # rest else (k', vs) # group_insert k v rest)"

fun by_file_loop ::
  "(string \<times> AggregatedResult list) list \<Rightarrow> AggregatedResult list \<Rightarrow>
   (string \<times> AggregatedResult list) list" where
  "by_file_loop by_file [] = by_file"
| "by_file_loop by_file (r # rs) = by_file_loop (group_insert (file_name r) r by_file) rs"

definition get_results_by_file :: "ResultAggregator \<Rightarrow> (string \<times> AggregatedResult list) list" where
  "get_results_by_file a = by_file_loop [] (results a)"

text \<open>A sequence of calls of \<open>add_results\<close>, each with its three arguments.\<close>

fun add_all :: "ResultAggregator \<Rightarrow> (path \<times> PDFMatch list \<times> int) list \<Rightarrow> ResultAggregator" where
  "add_all a [] = a"
| "add_all a ((fp, matches, page_count) # calls) =
     add_all (add_results a fp matches page_count) calls"


section \<open>main: the loop over the files\<close>

text \<open>
  The state of a run while the files are processed: the aggregator, the exception
  journal written by \<open>log_exception\<close> (message and exception), and the events of the
  matcher.
\<close>

record run_state =
  aggregator :: ResultAggregator
  journal :: "(string \<times> py_error) list"
  events :: "event list"

text \<open>
  One iteration per file. An exception of \<open>process_pdf_file\<close> is caught and logged;
  otherwise the matches are added with the default page count 0.
\<close>

fun main_loop ::
  "'r re_module \<Rightarrow> (path \<Rightarrow> string + string list) \<Rightarrow> (string \<times> pyval) list \<Rightarrow> int \<Rightarrow> int \<Rightarrow>
   run_state \<Rightarrow> path list \<Rightarrow> run_state" where
  "main_loop re fitz term_list cb ca st [] = st"
| "main_loop re fitz term_list cb ca st (fp # files) =
     main_loop re fitz term_list cb ca
       (let r = process_pdf_file re fitz fp term_list cb ca
        in case fst r of
             Inl e \<Rightarrow>
               st\<lparr> journal := journal st @ [(''Error processing '' @ path_str fp, e)],
                   events := events st @ snd r \<rparr>
           | Inr found \<Rightarrow>
               st\<lparr> aggregator := add_results (aggregator st) fp found 0,
                   events := events st @ snd r \<rparr>)
       files"


section \<open>A small regular-expression library for running the model\<close>

text \<open>
  To evaluate the matcher on concrete inputs the parameter is instantiated with a
  library of literal patterns: a pattern matches its own text, and occurrences are found
  from left to right without overlap. Two patterns do not compile, as in the library:
  an opening parenthesis alone is rejected with \<^verbatim>\<open>re.error\<close>, and a repetition count
  of \<^verbatim>\<open>4294967296\<close> raises \<^verbatim>\<open>OverflowError\<close>.
\<close>

fun find_literal :: "nat \<Rightarrow> nat \<Rightarrow> string \<Rightarrow> string \<Rightarrow> (nat \<times> nat) list" where
  "find_literal i skip p [] = []"
| "find_literal i skip p (c # cs) =
     (if skip > 0 then find_literal (Suc i) (skip - 1) p cs
      else if p \<noteq> [] \<and> take (length p) (c # cs) = p
           then (i, i + length p) # find_literal (Suc i) (length p - 1) p cs
           else find_literal (Suc i) 0 p cs)"

definition literal_re :: "string re_module" where
  "literal_re =
     \<lparr> re_compile = (\<lambda>p. if p = ''('' then ReError ''missing ), unterminated subpattern at position 0''
                          else if p = ''a{4294967296}''
                          then Raised (OverflowError ''the repetition number is too large'')
                          else Compiled p),
       re_finditer = (\<lambda>p text. find_literal 0 0 p text) \<rparr>"

text \<open>The patterns with which \<^verbatim>\<open>re.compile\<close> was called, in order.\<close>

fun compile_requests :: "event list \<Rightarrow> pyval list" where
  "compile_requests [] = []"
| "compile_requests (ReCompile p # evs) = p # compile_requests evs"
| "compile_requests (PrintWarning n e # evs) = compile_requests evs"


section \<open>term_loader\<close>

text \<open>The loop over the items of a JSON array.\<close>

fun json_array_loop ::
  "(pyval \<times> pyval) list \<Rightarrow> pyval list \<Rightarrow> py_error + (pyval \<times> pyval) list" where
  "json_array_loop term_dict [] = Inr term_dict"
| "json_array_loop term_dict (item # items) =
     (case item of
        PDict kvs \<Rightarrow>
          (case (dict_get kvs (PStr ''name''), dict_get kvs (PStr ''pattern'')) of
             (Some n, Some p) \<Rightarrow>
               (case dict_setitem term_dict n p of
                  Inl e \<Rightarrow> Inl e
                | Inr d \<Rightarrow> json_array_loop d items)
           | _ \<Rightarrow>
               (case (dict_get kvs (PStr ''term''), dict_get kvs (PStr ''regex'')) of
                  (Some n, Some p) \<Rightarrow>
                    (case dict_setitem term_dict n p of
                       Inl e \<Rightarrow> Inl e
                     | Inr d \<Rightarrow> json_array_loop d items)
                | _ \<Rightarrow>
                    (case kvs of
                       (k0, v0) # (k1, v1) # rest \<Rightarrow>
                         (case dict_setitem term_dict v0 v1 of
                            Inl e \<Rightarrow> Inl e
                          | Inr d \<Rightarrow> json_array_loop d items)
                     | _ \<Rightarrow> json_array_loop term_dict items)))
      | _ \<Rightarrow> json_array_loop term_dict items)"

text \<open>
  \<open>opened\<close> is the outcome of opening and reading the file; \<open>json_load\<close> is the JSON
  parser of the library (a parse error is a \<^verbatim>\<open>ValueError\<close>).
\<close>

definition load_json_terms ::
  "(string \<Rightarrow> py_error + pyval) \<Rightarrow> py_error + string \<Rightarrow> py_error + (pyval \<times> pyval) list" where
  "load_json_terms json_load opened =
     (case opened of
        Inl e \<Rightarrow> Inl e
      | Inr content \<Rightarrow>
          (case json_load content of
             Inl e \<Rightarrow> Inl e
           | Inr data \<Rightarrow>
               (case data of
                  PDict kvs \<Rightarrow> Inr kvs
                | PList items \<Rightarrow> json_array_loop [] items
                | _ \<Rightarrow> Inl (ValueError ''JSON file must contain an object or array''))))"

text \<open>The loop over the rows of the CSV reader.\<close>

fun csv_rows_loop :: "(pyval \<times> pyval) list \<Rightarrow> string list list \<Rightarrow> (pyval \<times> pyval) list" where
  "csv_rows_loop term_dict [] = term_dict"
| "csv_rows_loop term_dict (row # rows) =
     (if length row < 2 then csv_rows_loop term_dict rows
      else (let term_name = strip (row ! 0); pattern = strip (row ! 1)
            in if term_name \<noteq> [] \<and> pattern \<noteq> []
               then csv_rows_loop (dict_store term_dict (PStr term_name) (PStr pattern)) rows
               else csv_rows_loop term_dict rows))"

text \<open>
  \<open>sniffer_has_header\<close> is \<^verbatim>\<open>csv.Sniffer().has_header\<close> and \<open>reader\<close> gives the rows
  of \<^verbatim>\<open>csv.reader\<close> over the whole file; both belong to the library. The sniffer sees
  the first 1024 characters. When it reports a header the first row is consumed with
  \<^verbatim>\<open>next\<close>, which raises \<^verbatim>\<open>StopIteration\<close> when there is no row.
\<close>

definition load_csv_terms ::
  "(string \<Rightarrow> py_error + bool) \<Rightarrow> (string \<Rightarrow> string list list) \<Rightarrow> py_error + string \<Rightarrow>
   py_error + (pyval \<times> pyval) list" where
  "load_csv_terms sniffer_has_header reader opened =
     (case opened of
        Inl e \<Rightarrow> Inl e
      | Inr content \<Rightarrow>
          (let sample = take 1024 content
           in case sniffer_has_header sample of
                Inl e \<Rightarrow> Inl e
              | Inr has_header \<Rightarrow>
                  (if has_header
                   then (case reader content of
                           [] \<Rightarrow> Inl StopIteration
                         | header # rows \<Rightarrow> Inr (csv_rows_loop [] rows))
                   else Inr (csv_rows_loop [] (reader content)))))"

text \<open>
  \<open>fs\<close> is the file system: no entry for a path that does not exist, otherwise the
  outcome of opening and reading the file.
\<close>

definition load_term_list ::
  "(path \<Rightarrow> (py_error + string) option) \<Rightarrow> (string \<Rightarrow> py_error + pyval) \<Rightarrow>
   (string \<Rightarrow> py_error + bool) \<Rightarrow> (string \<Rightarrow> string list list) \<Rightarrow> string \<Rightarrow>
   py_error + (pyval \<times> pyval) list" where
  "load_term_list fs json_load sniffer_has_header reader file_path_str =
     (let path = parse_path file_path_str
      in case fs path of
           None \<Rightarrow> Inl (FileNotFoundError (''Term list file not found: '' @ file_path_str))
         | Some opened \<Rightarrow>
             (let suffix = lower (path_suffix path)
              in if suffix = ''.json'' then load_json_terms json_load opened
                 else if suffix = ''.csv'' then load_csv_terms sniffer_has_header reader opened
                 else Inl (ValueError (''Unsupported file format: '' @ suffix @
                            ''. Use .json or .csv''))))"


section \<open>The header heuristic of the csv library\<close>

text \<open>
  \<^verbatim>\<open>csv.Sniffer.has_header\<close> as the standard library defines it. \<open>sniffed_rows\<close> gives
  the rows of the sample read with the dialect that \<^verbatim>\<open>sniff\<close> finds (or the error it
  raises), and \<open>py_complex\<close> tells whether \<^verbatim>\<open>complex(s)\<close> accepts a string. The type
  of a column is \<^verbatim>\<open>complex\<close> or the length of its cells; a column whose rows disagree
  is removed; at most 21 rows after the first are looked at. Every remaining column
  votes for a header when the first row does not fit its type, and a column that never
  got a type votes for a header.
\<close>

datatype col_type = NoType | ComplexType | LengthType nat

definition this_type :: "(string \<Rightarrow> bool) \<Rightarrow> string \<Rightarrow> col_type" where
  "this_type py_complex cell = (if py_complex cell then ComplexType else LengthType (length cell))"

fun dict_del :: "(nat \<times> col_type) list \<Rightarrow> nat \<Rightarrow> (nat \<times> col_type) list" where
  "dict_del [] k = []"
| "dict_del ((k', v) # d) k = (if k' = k then d else (k', v) # dict_del d k)"

fun dict_put :: "(nat \<times> col_type) list \<Rightarrow> nat \<Rightarrow> col_type \<Rightarrow> (nat \<times> col_type) list" where
  "dict_put [] k v = [(k, v)]"
| "dict_put ((k', v') # d) k v = (if k' = k then (k', v) # d else (k', v') # dict_put d k v)"

text \<open>The loop over the columns still under consideration, for one row.\<close>

fun column_loop ::
  "(string \<Rightarrow> bool) \<Rightarrow> string list \<Rightarrow> nat list \<Rightarrow> (nat \<times> col_type) list \<Rightarrow> (nat \<times> col_type) list" where
  "column_loop py_complex row [] columnTypes = columnTypes"
| "column_loop py_complex row (col # cols) columnTypes =
     (let thisType = this_type py_complex (row ! col)
      in column_loop py_complex row cols
           (case map_of columnTypes col of
              None \<Rightarrow> columnTypes
            | Some t \<Rightarrow>
                (if thisType \<noteq> t
                 then (if t = NoType then dict_put columnTypes col thisType
                       else dict_del columnTypes col)
                 else columnTypes)))"

text \<open>The loop over the rows after the first.\<close>

fun row_loop ::
  "(string \<Rightarrow> bool) \<Rightarrow> nat \<Rightarrow> nat \<Rightarrow> string list list \<Rightarrow> (nat \<times> col_type) list \<Rightarrow>
   (nat \<times> col_type) list" where
  "row_loop py_complex columns checked [] columnTypes = columnTypes"
| "row_loop py_complex columns checked (row # rows) columnTypes =
     (if checked > 20 then columnTypes
      else if length row \<noteq> columns
           then row_loop py_complex columns (checked + 1) rows columnTypes
           else row_loop py_complex columns (checked + 1) rows
                  (column_loop py_complex row (map fst columnTypes) columnTypes))"

fun vote_loop :: "(string \<Rightarrow> bool) \<Rightarrow> string list \<Rightarrow> (nat \<times> col_type) list \<Rightarrow> int \<Rightarrow> int" where
  "vote_loop py_complex header [] hasHeader = hasHeader"
| "vote_loop py_complex header ((col, colType) # rest) hasHeader =
     vote_loop py_complex header rest
       (case colType of
          LengthType n \<Rightarrow> (if length (header ! col) \<noteq> n then hasHeader + 1 else hasHeader - 1)
        | ComplexType \<Rightarrow> (if py_complex (header ! col) then hasHeader - 1 else hasHeader + 1)
        | NoType \<Rightarrow> hasHeader + 1)"

definition has_header ::
  "(string \<Rightarrow> py_error + string list list) \<Rightarrow> (string \<Rightarrow> bool) \<Rightarrow> string \<Rightarrow> py_error + bool" where
  "has_header sniffed_rows py_complex sample =
     (case sniffed_rows sample of
        Inl e \<Rightarrow> Inl e
      | Inr [] \<Rightarrow> Inl StopIteration
      | Inr (header # rows) \<Rightarrow>
          (let columns = length header;
               columnTypes = map (\<lambda>i. (i, NoType)) [0 ..< columns];
               columnTypes' = row_loop py_complex columns 0 rows columnTypes
           in Inr (vote_loop py_complex header columnTypes' 0 > 0)))"


section \<open>A small csv library for running the model\<close>

text \<open>
  For texts without quotes and carriage returns, in which the comma is the delimiter
  that \<^verbatim>\<open>sniff\<close> finds: the rows are the lines, cut at the commas, and an empty line
  is an empty row. \<open>plain_number\<close> stands for \<^verbatim>\<open>complex\<close> on cells: it accepts the
  unsigned decimal integers, and agrees with \<^verbatim>\<open>complex\<close> on every cell that contains a
  letter other than those of a number.
\<close>

definition text_lines :: "string \<Rightarrow> string list" where
  "text_lines s =
     (let ls = split_on CHR 0x0A s
      in if ls \<noteq> [] \<and> last ls = [] then butlast ls else ls)"

definition plain_reader :: "string \<Rightarrow> string list list" where
  "plain_reader s = map (\<lambda>l. if l = [] then [] else split_on CHR '','' l) (text_lines s)"

definition plain_number :: "string \<Rightarrow> bool" where
  "plain_number s = (s \<noteq> [] \<and> list_all (\<lambda>c. CHR ''0'' \<le> c \<and> c \<le> CHR ''9'') s)"

definition plain_has_header :: "string \<Rightarrow> py_error + bool" where
  "plain_has_header = has_header (\<lambda>s. Inr (plain_reader s)) plain_number"


section \<open>Sample inputs\<close>

text \<open>
  A PDF library in which every file has two pages, except the files named
  \<^verbatim>\<open>bad.pdf\<close>, which cannot be opened; the state of a run before the first file; a
  match record.
\<close>

definition sample_fitz :: "path \<Rightarrow> string + string list" where
  "sample_fitz p =
     (if path_name p = ''bad.pdf'' then Inl ''cannot open broken document''
      else Inr [''Ref INV-1001 due'', ''no match here''])"

definition initial_state :: "int \<Rightarrow> int \<Rightarrow> run_state" where
  "initial_state cb ca = \<lparr> aggregator = new_aggregator cb ca, journal = [], events = [] \<rparr>"

definition sample_match :: PDFMatch where
  "sample_match =
     \<lparr> term_name = ''Invoice'', matched_text = ''INV-1001'', page_number = 1,
       context_before = ''Ref '', context_after = '' due'', position = 4 \<rparr>"


text \<open>A file system with three term files, and a JSON parser that always reads the same object.\<close>

definition sample_fs :: "path \<Rightarrow> (py_error + string) option" where
  "sample_fs p =
     (if path_str p = ''conf/terms.TXT'' then Some (Inr ''A,foo'')
      else if path_str p = ''conf/terms.JSON'' then Some (Inr ''{}'')
      else if path_str p = ''conf/terms.csv'' then Some (Inr ''A,foo\<newline>B,bar\<newline>'')
      else None)"

definition sample_json_load :: "string \<Rightarrow> py_error + pyval" where
  "sample_json_load s =
     Inr (PDict [(PStr '' A '', PStr '' foo ''), (PStr [], PStr ''x''), (PStr ''B'', PStr [])])"


section \<open>file_scanner\<close>

text \<open>
  The file system is a parameter of the scanner: whether a path exists, is a directory,
  is a regular file, and \<^verbatim>\<open>root.glob(pattern)\<close>, which gives the paths it yields in
  order, or the exception it raises (a \<^verbatim>\<open>ValueError\<close> for a pattern in which
  \<^verbatim>\<open>**\<close> is part of a longer component, for instance).
\<close>

record filesystem =
  fs_exists :: "path \<Rightarrow> bool"
  fs_is_dir :: "path \<Rightarrow> bool"
  fs_is_file :: "path \<Rightarrow> bool"
  fs_glob :: "path \<Rightarrow> string \<Rightarrow> py_error + path list"

text \<open>
  The loop over the extensions: the matches of every pattern extend the list; an
  exception of \<^verbatim>\<open>glob\<close> leaves the function. \<open>prefix\<close> is what the pattern puts
  before the extension.
\<close>

fun extend_loop ::
  "filesystem \<Rightarrow> path \<Rightarrow> string \<Rightarrow> path list \<Rightarrow> string list \<Rightarrow> py_error + path list" where
  "extend_loop fs root prefix matching_files [] = Inr matching_files"
| "extend_loop fs root prefix matching_files (ext # extensions) =
     (case fs_glob fs root (prefix @ ext) of
        Inl e \<Rightarrow> Inl e
      | Inr found \<Rightarrow> extend_loop fs root prefix (matching_files @ found) extensions)"

text \<open>Paths are ordered by their components, as lists of strings.\<close>

definition path_key :: "path \<Rightarrow> string list" where
  "path_key p = (if anchor p = [] then parts p else anchor p # parts p)"

definition glob_prefix :: "bool \<Rightarrow> string" where
  "glob_prefix recursive = (if recursive then ''**/*'' else ''*'')"

definition scan_directory ::
  "filesystem \<Rightarrow> string \<Rightarrow> string list \<Rightarrow> bool \<Rightarrow> py_error + path list" where
  "scan_directory fs root_path extensions recursive =
     (let root = parse_path root_path
      in if \<not> fs_exists fs root
         then Inl (FileNotFoundError (''Directory not found: '' @ root_path))
         else if \<not> fs_is_dir fs root
         then Inl (NotADirectoryError (''Not a directory: '' @ root_path))
         else (let extensions' = map lower extensions
               in case extend_loop fs root (glob_prefix recursive) [] extensions' of
                    Inl e \<Rightarrow> Inl e
                  | Inr matching_files \<Rightarrow>
                      Inr (sort_key path_key (filter (fs_is_file fs) matching_files))))"


section \<open>A small file system for running the model\<close>

text \<open>
  A tree of regular files, directories with their entries in the order the system lists
  them, and things that are neither. Paths are relative to the top of the tree.
\<close>

datatype fs_node = File | Dir "(string \<times> fs_node) list" | Other

fun node_at :: "fs_node \<Rightarrow> string list \<Rightarrow> fs_node option"
and entry_at :: "(string \<times> fs_node) list \<Rightarrow> string \<Rightarrow> string list \<Rightarrow> fs_node option" where
  "node_at node [] = Some node"
| "node_at (Dir entries) (name # rest) = entry_at entries name rest"
| "node_at File (name # rest) = None"
| "node_at Other (name # rest) = None"
| "entry_at [] name rest = None"
| "entry_at ((k, node) # entries) name rest =
     (if k = name then node_at node rest else entry_at entries name rest)"

text \<open>
  Matching of a name against a pattern on a POSIX system, for patterns made of literal
  characters, \<^verbatim>\<open>*\<close> and \<^verbatim>\<open>?\<close>: the comparison is case-sensitive.
\<close>

fun posix_match :: "string \<Rightarrow> string \<Rightarrow> bool" where
  "posix_match [] [] = True"
| "posix_match [] (c # cs) = False"
| "posix_match (p # ps) [] = (p = CHR ''*'' \<and> posix_match ps [])"
| "posix_match (p # ps) (c # cs) =
     (if p = CHR ''*'' then posix_match ps (c # cs) \<or> posix_match (p # ps) cs
      else (p = CHR ''?'' \<or> p = c) \<and> posix_match ps cs)"

text \<open>The directories of a subtree, the top first, each with its relative path.\<close>

fun subdirs :: "string list \<Rightarrow> fs_node \<Rightarrow> (string list \<times> fs_node) list"
and subdirs_below :: "string list \<Rightarrow> (string \<times> fs_node) list \<Rightarrow> (string list \<times> fs_node) list" where
  "subdirs base (Dir entries) = (base, Dir entries) # subdirs_below base entries"
| "subdirs base File = []"
| "subdirs base Other = []"
| "subdirs_below base [] = []"
| "subdirs_below base ((name, node) # entries) =
     subdirs (base @ [name]) node @ subdirs_below base entries"

definition is_dir_node :: "fs_node \<Rightarrow> bool" where
  "is_dir_node node = (case node of Dir entries \<Rightarrow> True | _ \<Rightarrow> False)"

text \<open>
  One component of a pattern, applied at a directory: \<^verbatim>\<open>**\<close> gives the directory and
  all directories below it; any other component gives the entries whose name it matches,
  directories only when further components follow.
\<close>

definition select_step ::
  "string \<Rightarrow> bool \<Rightarrow> string list \<times> fs_node \<Rightarrow> (string list \<times> fs_node) list" where
  "select_step c dironly x =
     (if c = ''**'' then subdirs (fst x) (snd x)
      else (case snd x of
              Dir entries \<Rightarrow>
                map (\<lambda>e. (fst x @ [fst e], snd e))
                  (filter (\<lambda>e. posix_match c (fst e) \<and> (dironly \<longrightarrow> is_dir_node (snd e))) entries)
            | _ \<Rightarrow> []))"

definition keep_first :: "'a list \<Rightarrow> 'a list" where
  "keep_first xs = rev (remdups (rev xs))"

fun select :: "string list \<Rightarrow> string list \<times> fs_node \<Rightarrow> (string list \<times> fs_node) list" where
  "select [] x = [x]"
| "select (c # cs) x =
     (if c = [] then [x]
      else keep_first (concat (map (select cs) (select_step c (cs \<noteq> []) x))))"

fun has_double_star :: "string \<Rightarrow> bool" where
  "has_double_star (a # b # rest) = ((a = CHR ''*'' \<and> b = CHR ''*'') \<or> has_double_star (b # rest))"
| "has_double_star rest = False"

text \<open>
  \<^verbatim>\<open>glob\<close> on the tree. The pattern is cut into its components; a pattern that ends
  with a slash selects directories only. As in the library, \<^verbatim>\<open>**\<close> inside a longer
  component is a \<^verbatim>\<open>ValueError\<close>. Components with brackets and the component
  \<^verbatim>\<open>..\<close> are not provided.
\<close>

definition tree_glob :: "fs_node \<Rightarrow> path \<Rightarrow> string \<Rightarrow> py_error + path list" where
  "tree_glob tree root pattern =
     (let comps = filter (\<lambda>c. c \<noteq> [] \<and> c \<noteq> ''.'') (split_on CHR ''/'' pattern) @
                  (if pattern \<noteq> [] \<and> last pattern = CHR ''/'' then [[]] else [])
      in if list_ex (\<lambda>c. c \<noteq> ''**'' \<and> has_double_star c) comps
         then Inl (ValueError (''Invalid pattern: '' @ [CHR 0x27] @ ''**'' @ [CHR 0x27] @
                     '' can only be an entire path component''))
         else if list_ex (\<lambda>c. CHR ''['' \<in> set c \<or> c = ''..'') comps
         then Inl (NotImplementedError ''pattern not provided'')
         else (case node_at tree (parts root) of
                 Some node \<Rightarrow> Inr (map (\<lambda>f. joinpath root (fst f)) (select comps ([], node)))
               | None \<Rightarrow> Inr []))"

definition tree_fs :: "fs_node \<Rightarrow> filesystem" where
  "tree_fs tree =
     \<lparr> fs_exists = (\<lambda>p. node_at tree (parts p) \<noteq> None),
       fs_is_dir = (\<lambda>p. case node_at tree (parts p) of Some (Dir entries) \<Rightarrow> True | _ \<Rightarrow> False),
       fs_is_file = (\<lambda>p. node_at tree (parts p) = Some File),
       fs_glob = tree_glob tree \<rparr>"

text \<open>A directory \<^verbatim>\<open>docs\<close> with four files and a subdirectory.\<close>

definition sample_tree :: fs_node where
  "sample_tree =
     Dir [(''docs'',
           Dir [(''b.pdf'', File), (''X.PDF'', File), (''notes.txt'', File),
                (''old.pdf'', Dir [(''a.pdf'', File)]), (''a.pdf'', File)])]"


section \<open>The matches and the events of one call\<close>

text \<open>
  The matches of one term, as the specification describes them: those of its compiled
  pattern, none when the pattern does not compile.
\<close>

definition term_matches ::
  "'r re_module \<Rightarrow> string \<Rightarrow> nat \<Rightarrow> int \<Rightarrow> int \<Rightarrow> string \<times> pyval \<Rightarrow> PDFMatch list" where
  "term_matches re text page cb ca item =
     (case compile_pattern re (snd item) of
        Compiled regex \<Rightarrow> map (make_match text (fst item) page cb ca) (re_finditer re regex text)
      | _ \<Rightarrow> [])"

definition match_count :: "'r re_module \<Rightarrow> string \<Rightarrow> pyval \<Rightarrow> nat" where
  "match_count re text pattern =
     (case compile_pattern re pattern of
        Compiled regex \<Rightarrow> length (re_finditer re regex text)
      | _ \<Rightarrow> 0)"

text \<open>
  The exception with which a call of the matcher ends, if any: that of the first term on
  whose pattern \<^verbatim>\<open>re.compile\<close> raises something else than \<^verbatim>\<open>re.error\<close>.
\<close>

fun first_raise :: "'r re_module \<Rightarrow> (string \<times> pyval) list \<Rightarrow> py_error option" where
  "first_raise re [] = None"
| "first_raise re (item # items) =
     (case compile_pattern re (snd item) of
        Raised e \<Rightarrow> Some e
      | _ \<Rightarrow> first_raise re items)"

text \<open>The events of one call of the matcher: term after term, up to the term that raises.\<close>

fun call_events :: "'r re_module \<Rightarrow> (string \<times> pyval) list \<Rightarrow> event list" where
  "call_events re [] = []"
| "call_events re (item # items) =
     (case compile_pattern re (snd item) of
        Compiled regex \<Rightarrow> ReCompile (snd item) # call_events re items
      | ReError e \<Rightarrow> ReCompile (snd item) # PrintWarning (fst item) e # call_events re items
      | Raised e \<Rightarrow> [ReCompile (snd item)])"


section \<open>Properties of the matcher\<close>

lemma scan_matches_append:
  "scan_matches acc tx name page cb ca spans =
     acc @ map (make_match tx name page cb ca) spans"
  by (induction spans arbitrary: acc) simp_all

lemma search_loop_result:
  "search_loop re acc tx items page cb ca =
     ((case first_raise re items of
         Some e \<Rightarrow> Inl e
       | None \<Rightarrow> Inr (fst acc @ concat (map (term_matches re tx page cb ca) items))),
      snd acc @ call_events re items)"
proof (induction items arbitrary: acc)
  case Nil
  show ?case by simp
next
  case (Cons item items)
  obtain name pattern where item: "item = (name, pattern)" by (cases item)
  show ?case
    by (cases "compile_pattern re pattern")
       (simp_all add: item Cons.IH term_matches_def scan_matches_append split: option.splits)
qed

lemma search_result:
  "search_text_for_patterns re tx items page cb ca =
     ((case first_raise re items of
         Some e \<Rightarrow> Inl e
       | None \<Rightarrow> Inr (concat (map (term_matches re tx page cb ca) items))),
      call_events re items)"
  by (simp add: search_text_for_patterns_def search_loop_result split: option.splits)

lemma search_returns:
  "fst (search_text_for_patterns re tx items page cb ca) = Inr ms \<Longrightarrow>
   first_raise re items = None \<and> ms = concat (map (term_matches re tx page cb ca) items)"
  by (cases "first_raise re items") (simp_all add: search_result)

lemma length_term_matches:
  "length (term_matches re tx page cb ca item) = match_count re tx (snd item)"
  by (simp add: term_matches_def match_count_def split: compiled.splits)

lemma term_name_make_match [simp]:
  "term_name (make_match tx name page cb ca span) = name"
  by (simp add: make_match_def Let_def)

lemma position_make_match [simp]:
  "position (make_match tx name page cb ca span) = fst span"
  by (simp add: make_match_def Let_def)

lemma names_term_matches:
  "map term_name (term_matches re tx page cb ca item) =
     replicate (match_count re tx (snd item)) (fst item)"
  by (simp add: term_matches_def match_count_def comp_def map_replicate_const
      split: compiled.splits)

lemma positions_term_matches:
  "map position (term_matches re tx page cb ca item) =
     (case compile_pattern re (snd item) of
        Compiled regex \<Rightarrow> map fst (re_finditer re regex tx)
      | ReError e \<Rightarrow> []
      | Raised e \<Rightarrow> [])"
  by (simp add: term_matches_def split: compiled.splits)

lemma first_raise_None_iff:
  "first_raise re items = None \<longleftrightarrow>
     (\<forall>item \<in> set items. \<forall>e. compile_pattern re (snd item) \<noteq> Raised e)"
  by (induction items) (auto split: compiled.splits)

text \<open>
  Claim C1. The call returns a list exactly when \<^verbatim>\<open>re.compile\<close> raises on no pattern
  of the term set anything else than \<^verbatim>\<open>re.error\<close> (otherwise it raises the exception
  of the first such term). The list returned is the concatenation, in the iteration
  order of the term set, of each term's matches; within a term they keep the order in
  which the scan yields them; the length is the sum over the terms of the number of
  matches of the terms that compile (a term rejected with \<^verbatim>\<open>re.error\<close> counts 0). The
  result is not sorted by position.
\<close>

theorem search_grouped_by_term:
  "fst (search_text_for_patterns re tx items page cb ca) =
     (case first_raise re items of
        Some e \<Rightarrow> Inl e
      | None \<Rightarrow> Inr (concat (map (term_matches re tx page cb ca) items)))
   \<and> (fst (search_text_for_patterns re tx items page cb ca) = Inr ms \<longrightarrow>
        ms = concat (map (term_matches re tx page cb ca) items)
      \<and> length ms = sum_list (map (\<lambda>item. match_count re tx (snd item)) items)
      \<and> map term_name ms =
          concat (map (\<lambda>item. replicate (match_count re tx (snd item)) (fst item)) items))
   \<and> map position (term_matches re tx page cb ca (name, pattern)) =
     (case compile_pattern re pattern of
        Compiled regex \<Rightarrow> map fst (re_finditer re regex tx)
      | ReError e \<Rightarrow> []
      | Raised e \<Rightarrow> [])"
proof -
  have len: "length (concat (map (term_matches re tx page cb ca) items)) =
        sum_list (map (\<lambda>item. match_count re tx (snd item)) items)"
    by (simp add: length_concat comp_def length_term_matches)
  have names: "map term_name (concat (map (term_matches re tx page cb ca) items)) =
        concat (map (\<lambda>item. replicate (match_count re tx (snd item)) (fst item)) items)"
    by (simp add: map_concat comp_def names_term_matches)
  have ret: "fst (search_text_for_patterns re tx items page cb ca) = Inr ms \<longrightarrow>
        ms = concat (map (term_matches re tx page cb ca) items)
      \<and> length ms = sum_list (map (\<lambda>item. match_count re tx (snd item)) items)
      \<and> map term_name ms =
          concat (map (\<lambda>item. replicate (match_count re tx (snd item)) (fst item)) items)"
    using len names search_returns [of re tx items page cb ca ms] by auto
  have pos: "map position (term_matches re tx page cb ca (name, pattern)) =
     (case compile_pattern re pattern of
        Compiled regex \<Rightarrow> map fst (re_finditer re regex tx)
      | ReError e \<Rightarrow> []
      | Raised e \<Rightarrow> [])"
    using positions_term_matches [of re tx page cb ca "(name, pattern)"] by simp
  have res: "fst (search_text_for_patterns re tx items page cb ca) =
     (case first_raise re items of
        Some e \<Rightarrow> Inl e
      | None \<Rightarrow> Inr (concat (map (term_matches re tx page cb ca) items)))"
    by (simp add: search_result)
  from res ret pos show ?thesis by blast
qed

lemmas matcher_eval =
  search_text_for_patterns_def compile_pattern_def literal_re_def make_match_def
  py_slice_def Let_def

theorem search_grouped_by_term_witness:
  "fst (search_text_for_patterns literal_re ''ab ba ab''
          [(''X'', PStr ''ba''), (''B'', PStr ''(''), (''Y'', PStr ''ab'')] 1 1 100) =
     Inr [make_match ''ab ba ab'' ''X'' 1 1 100 (3, 5),
          make_match ''ab ba ab'' ''Y'' 1 1 100 (0, 2),
          make_match ''ab ba ab'' ''Y'' 1 1 100 (6, 8)]
   \<and> length [make_match ''ab ba ab'' ''X'' 1 1 100 (3, 5),
          make_match ''ab ba ab'' ''Y'' 1 1 100 (0, 2),
          make_match ''ab ba ab'' ''Y'' 1 1 100 (6, 8)] =
       sum_list (map (\<lambda>item. match_count literal_re ''ab ba ab'' (snd item))
          [(''X'', PStr ''ba''), (''B'', PStr ''(''), (''Y'', PStr ''ab'')])
   \<and> map (\<lambda>item. match_count literal_re ''ab ba ab'' (snd item))
          [(''X'', PStr ''ba''), (''B'', PStr ''(''), (''Y'', PStr ''ab'')] = [1, 0, 2]"
proof -
  let ?items = "[(''X'', PStr ''ba''), (''B'', PStr ''(''), (''Y'', PStr ''ab'')]"
  let ?ms = "[make_match ''ab ba ab'' ''X'' 1 1 100 (3, 5),
          make_match ''ab ba ab'' ''Y'' 1 1 100 (0, 2),
          make_match ''ab ba ab'' ''Y'' 1 1 100 (6, 8)]"
  have h: "fst (search_text_for_patterns literal_re ''ab ba ab'' ?items 1 1 100) = Inr ?ms"
    by (simp add: search_text_for_patterns_def compile_pattern_def literal_re_def
        eval_nat_numeral)
  from search_grouped_by_term [of literal_re "''ab ba ab''" ?items 1 1 100 ?ms] h
  have l: "length ?ms = sum_list (map (\<lambda>item. match_count literal_re ''ab ba ab'' (snd item)) ?items)"
    by blast
  have c: "map (\<lambda>item. match_count literal_re ''ab ba ab'' (snd item)) ?items = [1, 0, 2]"
    by (simp add: match_count_def compile_pattern_def literal_re_def)
  from h l c show ?thesis by blast
qed

text \<open>
  An example in which the order of the result is not the order of the positions, and
  two in which the call raises: on a pattern with too large a repetition count, and on
  a pattern that is a number.
\<close>

lemma search_not_sorted_by_position:
  "map_sum id (map (\<lambda>m. (term_name m, position m)))
     (fst (search_text_for_patterns literal_re ''ab ba ab''
        [(''X'', PStr ''ba''), (''B'', PStr ''(''), (''Y'', PStr ''ab'')] 1 1 100)) =
   Inr [(''X'', 3), (''Y'', 0), (''Y'', 6)]"
  by (simp add: search_text_for_patterns_def compile_pattern_def literal_re_def)

lemma search_raises_overflow:
  "search_text_for_patterns literal_re ''ab ba ab''
        [(''X'', PStr ''ba''), (''O'', PStr ''a{4294967296}''), (''Y'', PStr ''ab'')] 1 1 100 =
   (Inl (OverflowError ''the repetition number is too large''),
    [ReCompile (PStr ''ba''), ReCompile (PStr ''a{4294967296}'')])"
  by (simp add: search_text_for_patterns_def compile_pattern_def literal_re_def)

lemma search_raises_type_error:
  "search_text_for_patterns literal_re ''ab ba ab''
        [(''X'', PStr ''ba''), (''N'', PInt 5), (''Y'', PStr ''ab'')] 1 1 100 =
   (Inl (TypeError ''first argument must be string or compiled pattern''),
    [ReCompile (PStr ''ba''), ReCompile (PInt 5)])"
  by (simp add: search_text_for_patterns_def compile_pattern_def literal_re_def)

lemma py_slice_nonneg:
  "0 \<le> i \<Longrightarrow> 0 \<le> j \<Longrightarrow> py_slice xs i j = drop (nat i) (take (nat j) xs)"
  by (auto simp: py_slice_def Let_def drop_take min_def nat_diff_distrib)

lemma make_match_context_before:
  "0 \<le> cb \<Longrightarrow> context_before (make_match tx name page cb ca (s, e)) = drop (s - nat cb) (take s tx)"
  by (simp add: make_match_def Let_def py_slice_nonneg max_def nat_diff_distrib')

lemma make_match_context_after:
  "0 \<le> ca \<Longrightarrow> context_after (make_match tx name page cb ca (s, e)) = take (nat ca) (drop e tx)"
proof -
  assume ca: "0 \<le> ca"
  have "drop e (take (nat (min (int (length tx)) (int e + ca))) tx) = take (nat ca) (drop e tx)"
    using ca by (auto simp: drop_take min_def nat_add_distrib)
  then show ?thesis
    using ca by (simp add: make_match_def Let_def py_slice_nonneg)
qed

lemma compile_pattern_Compiled:
  "compile_pattern re p = Compiled regex \<Longrightarrow> \<exists>s. p = PStr s \<and> re_compile re s = Compiled regex"
  by (cases p) (simp_all add: compile_pattern_def)

lemma search_member:
  assumes "fst (search_text_for_patterns re tx items page cb ca) = Inr ms" and "m \<in> set ms"
  shows "\<exists>pattern regex span. (term_name m, PStr pattern) \<in> set items
     \<and> re_compile re pattern = Compiled regex
     \<and> span \<in> set (re_finditer re regex tx) \<and> m = make_match tx (term_name m) page cb ca span"
proof -
  from search_returns [OF assms(1)] assms(2)
  obtain item where item: "item \<in> set items" and m: "m \<in> set (term_matches re tx page cb ca item)"
    by auto
  obtain name p where np: "item = (name, p)" by (cases item)
  from m np obtain regex where c: "compile_pattern re p = Compiled regex"
    and m': "m \<in> make_match tx name page cb ca ` set (re_finditer re regex tx)"
    by (cases "compile_pattern re p") (auto simp: term_matches_def)
  from compile_pattern_Compiled [OF c] obtain pattern where
    p: "p = PStr pattern" and rc: "re_compile re pattern = Compiled regex" by blast
  from m' obtain span where sp: "span \<in> set (re_finditer re regex tx)"
    and meq: "m = make_match tx name page cb ca span"
    by auto
  from meq have tn: "term_name m = name" by simp
  have "(term_name m, PStr pattern) \<in> set items" using item np tn p by simp
  moreover have "m = make_match tx (term_name m) page cb ca span" using meq tn by simp
  ultimately show ?thesis using rc sp by blast
qed

text \<open>
  Claim C2. For non-negative context sizes, every match record of a page has as
  \<open>context_before\<close> the slice of the text from \<open>max 0 (start - n_before)\<close> to the start
  of the match, and as \<open>context_after\<close> the slice from the end of the match to
  \<open>min (length text) (end + n_after)\<close>. These are the (at most) \<open>n_before\<close> characters
  before the match and the (at most) \<open>n_after\<close> characters after it: the windows are
  clamped at the ends of the text, and the slices never fail.
\<close>

theorem context_windows_clamped:
  assumes "0 \<le> cb" and "0 \<le> ca"
    and "fst (search_text_for_patterns re tx items page cb ca) = Inr ms"
    and "m \<in> set ms"
  shows "\<exists>pattern regex s e.
      (term_name m, PStr pattern) \<in> set items \<and> re_compile re pattern = Compiled regex
    \<and> (s, e) \<in> set (re_finditer re regex tx) \<and> position m = s
    \<and> context_before m = py_slice tx (max 0 (int s - cb)) (int s)
    \<and> context_after m = py_slice tx (int e) (min (int (length tx)) (int e + ca))
    \<and> context_before m = drop (s - nat cb) (take s tx)
    \<and> context_after m = take (nat ca) (drop e tx)
    \<and> length (context_before m) \<le> nat cb
    \<and> length (context_after m) \<le> nat ca"
proof -
  from search_member [OF assms(3,4)] obtain pattern regex span where
    it: "(term_name m, PStr pattern) \<in> set items" and c: "re_compile re pattern = Compiled regex"
    and sp: "span \<in> set (re_finditer re regex tx)"
    and m: "m = make_match tx (term_name m) page cb ca span" by blast
  obtain s e where se: "span = (s, e)" by (cases span)
  have b: "context_before m = drop (s - nat cb) (take s tx)"
    using make_match_context_before [OF assms(1), of tx "term_name m" page ca s e] m se by simp
  have a: "context_after m = take (nat ca) (drop e tx)"
    using make_match_context_after [OF assms(2), of tx "term_name m" page cb s e] m se by simp
  have pb: "context_before m = py_slice tx (max 0 (int s - cb)) (int s)"
    by (subst m) (simp add: make_match_def Let_def se)
  have pa: "context_after m = py_slice tx (int e) (min (int (length tx)) (int e + ca))"
    by (subst m) (simp add: make_match_def Let_def se)
  have pos: "position m = s" by (subst m) (simp add: se)
  have lb: "length (context_before m) \<le> nat cb" unfolding b by simp
  have la: "length (context_after m) \<le> nat ca" unfolding a by simp
  from it c sp se pos pb pa b a lb la show ?thesis by blast
qed

theorem context_windows_clamped_witness:
  "(0::int) \<le> 4
   \<and> fst (search_text_for_patterns literal_re ''Ref INV-1001 due''
            [(''Invoice'', PStr ''INV-1001'')] 1 4 4) =
       Inr [\<lparr> term_name = ''Invoice'', matched_text = ''INV-1001'', page_number = 1,
              context_before = ''Ref '', context_after = '' due'', position = 4 \<rparr>]
   \<and> ''Ref '' = drop (4 - nat 4) (take 4 ''Ref INV-1001 due'')
   \<and> length ''Ref '' \<le> nat 4 \<and> length '' due'' \<le> nat 4"
proof -
  define m0 where "m0 = \<lparr> term_name = ''Invoice'', matched_text = ''INV-1001'', page_number = 1,
       context_before = ''Ref '', context_after = '' due'', position = 4 \<rparr>"
  have ret: "fst (search_text_for_patterns literal_re ''Ref INV-1001 due''
                 [(''Invoice'', PStr ''INV-1001'')] 1 4 4) = Inr [m0]"
    by (simp add: m0_def matcher_eval)
  have mem: "m0 \<in> set [m0]" by simp
  have h: "(0::int) \<le> 4" by simp
  from context_windows_clamped [OF h h ret mem] obtain s where
    pos: "position m0 = s"
    and b: "context_before m0 = drop (s - nat 4) (take s ''Ref INV-1001 due'')"
    and lb: "length (context_before m0) \<le> nat 4"
    and la: "length (context_after m0) \<le> nat 4"
    by blast
  from pos have s: "s = 4" by (simp add: m0_def)
  from b lb la ret h show ?thesis
    unfolding s by (simp add: m0_def)
qed


lemma search_events:
  "snd (search_text_for_patterns re tx items page cb ca) = call_events re items"
  by (simp add: search_result)

lemma search_fst:
  "fst (search_text_for_patterns re tx items page cb ca) =
     (case first_raise re items of
        Some e \<Rightarrow> Inl e
      | None \<Rightarrow> Inr (concat (map (term_matches re tx page cb ca) items)))"
  by (simp add: search_result)

lemma page_loop_raise:
  "first_raise re items = Some e \<Longrightarrow> pages \<noteq> [] \<Longrightarrow>
   page_loop re acc pages items cb ca = (Inl e, snd acc @ call_events re items)"
proof (cases pages)
  case Nil
  assume "pages \<noteq> []"
  with Nil show ?thesis by simp
next
  case (Cons pg rest)
  assume r: "first_raise re items = Some e"
  obtain n tx where pg: "pg = (n, tx)" by (cases pg)
  show ?thesis
    by (simp add: Cons pg Let_def search_fst search_events r)
qed

lemma page_loop_events:
  "first_raise re items = None \<Longrightarrow>
   \<exists>ms. page_loop re acc pages items cb ca =
     (Inr ms, snd acc @ concat (replicate (length pages) (call_events re items)))"
proof (induction pages arbitrary: acc)
  case Nil
  show ?case by simp
next
  case (Cons pg pages)
  obtain n tx where pg: "pg = (n, tx)" by (cases pg)
  let ?found = "concat (map (term_matches re tx n cb ca) items)"
  from Cons.IH [OF Cons.prems, of "(fst acc @ ?found, snd acc @ call_events re items)"]
  show ?case
    by (simp add: pg Let_def search_fst search_events Cons.prems)
qed

lemma compile_requests_app:
  "compile_requests (xs @ ys) = compile_requests xs @ compile_requests ys"
  by (induction xs rule: compile_requests.induct) simp_all

lemma compile_requests_call_events:
  "first_raise re items = None \<Longrightarrow> compile_requests (call_events re items) = map snd items"
proof (induction items)
  case Nil
  show ?case by simp
next
  case (Cons item items)
  then show ?case
    by (cases "compile_pattern re (snd item)") simp_all
qed

lemma compile_requests_replicate:
  "compile_requests (concat (replicate n evs)) = concat (replicate n (compile_requests evs))"
  by (induction n) (simp_all add: compile_requests_app)

lemma count_list_replicate:
  "count_list (concat (replicate n xs)) x = n * count_list xs x"
  by (induction n) simp_all

text \<open>
  Claim C6, as the code has it. The matcher calls \<^verbatim>\<open>re.compile\<close> for every pattern on
  every call, and it is called once per page. When no pattern makes \<^verbatim>\<open>re.compile\<close>
  raise anything else than \<^verbatim>\<open>re.error\<close>, the events of a file of \<open>P\<close> pages are
  \<open>P\<close> times those of one call: every pattern of the term set is passed to
  \<^verbatim>\<open>re.compile\<close> \<open>P\<close> times, in term order page after page, and a pattern rejected
  with \<^verbatim>\<open>re.error\<close> is rejected, and its warning printed, on every page. When some
  pattern makes \<^verbatim>\<open>re.compile\<close> raise another exception, the file is given up at that
  call on its first page. The code keeps no compiled pattern between calls.
\<close>

theorem compile_once_per_page:
  assumes "fitz fp = Inr texts"
  shows "(first_raise re items = None \<longrightarrow>
            (\<exists>ms. process_pdf_file re fitz fp items cb ca =
                    (Inr ms, concat (replicate (length texts) (call_events re items))))
          \<and> compile_requests (concat (replicate (length texts) (call_events re items))) =
              concat (replicate (length texts) (map snd items))
          \<and> (\<forall>p. count_list
                    (compile_requests (concat (replicate (length texts) (call_events re items)))) p =
                  length texts * count_list (map snd items) p))
       \<and> (first_raise re items = Some e \<longrightarrow> texts \<noteq> [] \<longrightarrow>
            process_pdf_file re fitz fp items cb ca = (Inl e, call_events re items))"
proof -
  let ?pages = "zip (map Suc [0 ..< length texts]) texts"
  have p: "process_pdf_file re fitz fp items cb ca = page_loop re ([], []) ?pages items cb ca"
    using assms by (simp add: process_pdf_file_def extract_text_from_pdf_def)
  have a: "(\<exists>ms. process_pdf_file re fitz fp items cb ca =
                    (Inr ms, concat (replicate (length texts) (call_events re items))))
          \<and> compile_requests (concat (replicate (length texts) (call_events re items))) =
              concat (replicate (length texts) (map snd items))
          \<and> (\<forall>p. count_list
                    (compile_requests (concat (replicate (length texts) (call_events re items)))) p =
                  length texts * count_list (map snd items) p)"
    if n: "first_raise re items = None"
  proof -
    from page_loop_events [OF n, of "([], [])" ?pages cb ca]
    have r: "\<exists>ms. process_pdf_file re fitz fp items cb ca =
                    (Inr ms, concat (replicate (length texts) (call_events re items)))"
      unfolding p by simp
    have c: "compile_requests (concat (replicate (length texts) (call_events re items))) =
              concat (replicate (length texts) (map snd items))"
      by (simp add: compile_requests_replicate compile_requests_call_events [OF n])
    have k: "count_list
                    (compile_requests (concat (replicate (length texts) (call_events re items)))) q =
                  length texts * count_list (map snd items) q" for q
      unfolding c by (rule count_list_replicate)
    from r c k show ?thesis by blast
  qed
  have b: "process_pdf_file re fitz fp items cb ca = (Inl e, call_events re items)"
    if s: "first_raise re items = Some e" and t: "texts \<noteq> []"
  proof -
    from t have "?pages \<noteq> []" by (cases texts) (simp_all add: upt_conv_Cons)
    from page_loop_raise [OF s this, of "([], [])" cb ca] show ?thesis
      unfolding p by simp
  qed
  from a b show ?thesis by blast
qed

lemmas file_eval =
  process_pdf_file_def extract_text_from_pdf_def search_text_for_patterns_def
  compile_pattern_def literal_re_def sample_fitz_def path_name_def Let_def

theorem compile_once_per_page_witness:
  "sample_fitz (Path [] [''doc.pdf'']) = Inr [''Ref INV-1001 due'', ''no match here'']
   \<and> first_raise literal_re [(''Invoice'', PStr ''INV-1001''), (''Broken'', PStr ''('')] = None
   \<and> (\<exists>ms. process_pdf_file literal_re sample_fitz (Path [] [''doc.pdf''])
          [(''Invoice'', PStr ''INV-1001''), (''Broken'', PStr ''('')] 50 50 =
        (Inr ms,
         [ReCompile (PStr ''INV-1001''), ReCompile (PStr ''(''),
          PrintWarning ''Broken'' ''missing ), unterminated subpattern at position 0'',
          ReCompile (PStr ''INV-1001''), ReCompile (PStr ''(''),
          PrintWarning ''Broken'' ''missing ), unterminated subpattern at position 0'']))
   \<and> first_raise literal_re [(''Invoice'', PStr ''INV-1001''), (''Big'', PStr ''a{4294967296}'')] =
       Some (OverflowError ''the repetition number is too large'')
   \<and> process_pdf_file literal_re sample_fitz (Path [] [''doc.pdf''])
          [(''Invoice'', PStr ''INV-1001''), (''Big'', PStr ''a{4294967296}'')] 50 50 =
        (Inl (OverflowError ''the repetition number is too large''),
         [ReCompile (PStr ''INV-1001''), ReCompile (PStr ''a{4294967296}'')])"
proof -
  let ?ok = "[(''Invoice'', PStr ''INV-1001''), (''Broken'', PStr ''('')]"
  let ?bad = "[(''Invoice'', PStr ''INV-1001''), (''Big'', PStr ''a{4294967296}'')]"
  let ?texts = "[''Ref INV-1001 due'', ''no match here'']"
  have h: "sample_fitz (Path [] [''doc.pdf'']) = Inr ?texts"
    by (simp add: sample_fitz_def path_name_def)
  have n: "first_raise literal_re ?ok = None"
    by (simp add: compile_pattern_def literal_re_def)
  have s: "first_raise literal_re ?bad = Some (OverflowError ''the repetition number is too large'')"
    by (simp add: compile_pattern_def literal_re_def)
  have t: "?texts \<noteq> []" by simp
  note inst = compile_once_per_page [of sample_fitz "Path [] [''doc.pdf'']" ?texts literal_re]
  from inst [where items = ?ok and cb = 50 and ca = 50, OF h] n
  obtain ms where
    a: "process_pdf_file literal_re sample_fitz (Path [] [''doc.pdf'']) ?ok 50 50 =
          (Inr ms, concat (replicate (length ?texts) (call_events literal_re ?ok)))"
    by blast
  have ev: "concat (replicate (length ?texts) (call_events literal_re ?ok)) =
         [ReCompile (PStr ''INV-1001''), ReCompile (PStr ''(''),
          PrintWarning ''Broken'' ''missing ), unterminated subpattern at position 0'',
          ReCompile (PStr ''INV-1001''), ReCompile (PStr ''(''),
          PrintWarning ''Broken'' ''missing ), unterminated subpattern at position 0'']"
    by (simp add: compile_pattern_def literal_re_def numeral_2_eq_2)
  from inst [where items = ?bad and cb = 50 and ca = 50
      and e = "OverflowError ''the repetition number is too large''", OF h] s t
  have b: "process_pdf_file literal_re sample_fitz (Path [] [''doc.pdf'']) ?bad 50 50 =
          (Inl (OverflowError ''the repetition number is too large''), call_events literal_re ?bad)"
    by blast
  have eb: "call_events literal_re ?bad =
         [ReCompile (PStr ''INV-1001''), ReCompile (PStr ''a{4294967296}'')]"
    by (simp add: compile_pattern_def literal_re_def)
  from a have a': "\<exists>ms. process_pdf_file literal_re sample_fitz (Path [] [''doc.pdf'']) ?ok 50 50 =
        (Inr ms,
         [ReCompile (PStr ''INV-1001''), ReCompile (PStr ''(''),
          PrintWarning ''Broken'' ''missing ), unterminated subpattern at position 0'',
          ReCompile (PStr ''INV-1001''), ReCompile (PStr ''(''),
          PrintWarning ''Broken'' ''missing ), unterminated subpattern at position 0''])"
    unfolding ev by blast
  from b have b': "process_pdf_file literal_re sample_fitz (Path [] [''doc.pdf'']) ?bad 50 50 =
        (Inl (OverflowError ''the repetition number is too large''),
         [ReCompile (PStr ''INV-1001''), ReCompile (PStr ''a{4294967296}'')])"
    unfolding eb .
  from h n a' s b' show ?thesis by blast
qed

text \<open>
  A document of two pages and a term whose pattern is rejected with \<^verbatim>\<open>re.error\<close>: the
  pattern is compiled, and rejected, on each of the two pages.
\<close>

theorem compile_at_most_once_counterexample:
  "process_pdf_file literal_re sample_fitz (Path [] [''doc.pdf''])
          [(''Broken'', PStr ''('')] 50 50 =
   (Inr [],
    [ReCompile (PStr ''(''),
     PrintWarning ''Broken'' ''missing ), unterminated subpattern at position 0'',
     ReCompile (PStr ''(''),
     PrintWarning ''Broken'' ''missing ), unterminated subpattern at position 0''])"
  by (simp add: file_eval)


section \<open>Properties of the aggregator\<close>

lemma append_results_results:
  "results (append_results a fp ms) = results a @ map (make_result fp) ms"
  by (induction ms arbitrary: a) simp_all



lemma add_results_results:
  "results (add_results a fp ms pc) = results a @ map (make_result fp) ms"
  by (simp add: add_results_def Let_def append_results_results)







lemma map_of_group_insert:
  "map_of (group_insert k v g) k' =
     (if k' = k then Some ((case map_of g k of None \<Rightarrow> [] | Some vs \<Rightarrow> vs) @ [v])
      else map_of g k')"
  by (induction g) auto

lemma keys_group_insert:
  "set (map fst (group_insert k v g)) = insert k (set (map fst g))"
proof (induction g)
  case Nil
  show ?case by simp
next
  case (Cons kv g)
  obtain k' vs where kv: "kv = (k', vs)" by (cases kv)
  show ?case
  proof (cases "k' = k")
    case True
    then show ?thesis by (simp add: kv insert_absorb2)
  next
    case False
    then show ?thesis using Cons.IH by (simp add: kv insert_commute)
  qed
qed

lemma distinct_group_insert:
  "distinct (map fst g) \<Longrightarrow> distinct (map fst (group_insert k v g))"
proof (induction g)
  case Nil
  show ?case by simp
next
  case (Cons kv g)
  obtain k' vs where kv: "kv = (k', vs)" by (cases kv)
  show ?case
  proof (cases "k' = k")
    case True
    with Cons.prems show ?thesis by (simp add: kv)
  next
    case False
    with Cons.prems Cons.IH keys_group_insert [of k v g] show ?thesis
      by (simp add: kv)
  qed
qed

lemma by_file_loop_distinct:
  "distinct (map fst g) \<Longrightarrow> distinct (map fst (by_file_loop g rs))"
  by (induction rs arbitrary: g) (simp_all add: distinct_group_insert)

lemma by_file_loop_map_of:
  "map_of (by_file_loop g rs) k =
     (case map_of g k of
        None \<Rightarrow> (if filter (\<lambda>r. file_name r = k) rs = [] then None
                 else Some (filter (\<lambda>r. file_name r = k) rs))
      | Some vs \<Rightarrow> Some (vs @ filter (\<lambda>r. file_name r = k) rs))"
proof (induction rs arbitrary: g)
  case Nil
  show ?case by (simp split: option.splits)
next
  case (Cons r rs)
  show ?case
    by (simp add: Cons.IH map_of_group_insert split: option.splits)
qed

text \<open>
  Claim C9. \<open>get_results_by_file\<close> groups by the bare file name: when the aggregator
  holds results of two different paths with the same name, both are in the one group
  kept under that name, which is the list of all results of that name in listing order;
  no name has two groups.
\<close>

theorem results_by_file_merges_same_name:
  assumes "r1 \<in> set (results a)" and "r2 \<in> set (results a)"
    and "file_path r1 \<noteq> file_path r2" and "file_name r1 = file_name r2"
  shows "\<exists>group. map_of (get_results_by_file a) (file_name r1) = Some group
      \<and> group = filter (\<lambda>r. file_name r = file_name r1) (results a)
      \<and> r1 \<in> set group \<and> r2 \<in> set group
      \<and> distinct (map fst (get_results_by_file a))"
proof -
  let ?group = "filter (\<lambda>r. file_name r = file_name r1) (results a)"
  have in1: "r1 \<in> set ?group" using assms(1) by simp
  have in2: "r2 \<in> set ?group" using assms(2,4) by simp
  from in1 have ne: "?group \<noteq> []" by (metis empty_iff empty_set)
  have m: "map_of (get_results_by_file a) (file_name r1) = Some ?group"
    using ne by (simp add: get_results_by_file_def by_file_loop_map_of)
  have d: "distinct (map fst (get_results_by_file a))"
    by (simp add: get_results_by_file_def by_file_loop_distinct)
  from m in1 in2 d show ?thesis by blast
qed


theorem results_by_file_merges_same_name_witness:
  "make_result (Path [] [''in'', ''a'', ''x.pdf'']) sample_match
     \<in> set (results (add_all (new_aggregator 4 4)
         [(Path [] [''in'', ''a'', ''x.pdf''], [sample_match], 0),
          (Path [] [''in'', ''b'', ''x.pdf''], [sample_match], 0)]))
   \<and> file_path (make_result (Path [] [''in'', ''a'', ''x.pdf'']) sample_match)
       \<noteq> file_path (make_result (Path [] [''in'', ''b'', ''x.pdf'']) sample_match)
   \<and> (\<exists>group. map_of (get_results_by_file (add_all (new_aggregator 4 4)
         [(Path [] [''in'', ''a'', ''x.pdf''], [sample_match], 0),
          (Path [] [''in'', ''b'', ''x.pdf''], [sample_match], 0)])) ''x.pdf'' = Some group
        \<and> map file_path group = [''in/a/x.pdf'', ''in/b/x.pdf''])"
proof -
  let ?p1 = "Path [] [''in'', ''a'', ''x.pdf'']" and ?p2 = "Path [] [''in'', ''b'', ''x.pdf'']"
  let ?a = "add_all (new_aggregator 4 4) [(?p1, [sample_match], 0), (?p2, [sample_match], 0)]"
  have res: "results ?a = [make_result ?p1 sample_match, make_result ?p2 sample_match]"
    by (simp add: add_results_results new_aggregator_def)
  have h1: "make_result ?p1 sample_match \<in> set (results ?a)" unfolding res by simp
  have h2: "make_result ?p2 sample_match \<in> set (results ?a)" unfolding res by simp
  have h3: "file_path (make_result ?p1 sample_match) \<noteq> file_path (make_result ?p2 sample_match)"
    by (simp add: make_result_def path_str_def)
  have h4: "file_name (make_result ?p1 sample_match) = file_name (make_result ?p2 sample_match)"
    by (simp add: make_result_def path_name_def)
  from results_by_file_merges_same_name [OF h1 h2 h3 h4] obtain group where
    g: "map_of (get_results_by_file ?a) (file_name (make_result ?p1 sample_match)) = Some group"
    and f: "group = filter (\<lambda>r. file_name r = file_name (make_result ?p1 sample_match)) (results ?a)"
    by blast
  have n: "file_name (make_result ?p1 sample_match) = ''x.pdf''"
    by (simp add: make_result_def path_name_def)
  from f have "map file_path group = [''in/a/x.pdf'', ''in/b/x.pdf'']"
    unfolding res by (simp add: make_result_def path_name_def path_str_def)
  with g n h1 h3 show ?thesis by auto
qed


section \<open>Properties of the run\<close>

lemma process_pdf_file_extraction_failure:
  "fitz fp = Inl e \<Longrightarrow>
   process_pdf_file re fitz fp items cb ca =
     (Inl (Exception (''Failed to extract text from '' @ path_str fp @ '': '' @ e)), [])"
  by (simp add: process_pdf_file_def extract_text_from_pdf_def)

lemma main_loop_append:
  "main_loop re fitz items cb ca st (xs @ ys) =
     main_loop re fitz items cb ca (main_loop re fitz items cb ca st xs) ys"
  by (induction xs arbitrary: st) simp_all

lemma main_loop_aggregator_cong:
  "aggregator st = aggregator st' \<Longrightarrow>
   aggregator (main_loop re fitz items cb ca st files) =
   aggregator (main_loop re fitz items cb ca st' files)"
proof (induction files arbitrary: st st')
  case Nil
  then show ?case by simp
next
  case (Cons f files)
  show ?case
    unfolding main_loop.simps
    by (rule Cons.IH) (simp add: Cons.prems Let_def split: sum.splits)
qed

lemma main_loop_journal_prefix:
  "\<exists>more. journal (main_loop re fitz items cb ca st files) = journal st @ more"
proof (induction files arbitrary: st)
  case Nil
  show ?case by simp
next
  case (Cons f files)
  let ?r = "process_pdf_file re fitz f items cb ca"
  show ?case
  proof (cases "fst ?r")
    case (Inl e)
    with Cons.IH [of "st\<lparr> journal := journal st @ [(''Error processing '' @ path_str f, e)],
                   events := events st @ snd ?r \<rparr>"]
    show ?thesis by (auto simp: Let_def)
  next
    case (Inr found)
    with Cons.IH [of "st\<lparr> aggregator := add_results (aggregator st) f found 0,
                events := events st @ snd ?r \<rparr>"]
    show ?thesis by (auto simp: Let_def)
  qed
qed

text \<open>
  Claim C8. When the extraction of one file fails, \<open>process_pdf_file\<close> raises an
  exception whose message names the file; the loop of \<open>main\<close> catches it, appends it
  to the journal under a message naming the file, and goes on with the next file. The
  aggregator is the same before and after the failing file, and at the end of the run it
  is what the run without that file produces.
\<close>

theorem extraction_failure_skips_file:
  assumes "fitz fp = Inl e"
  shows "process_pdf_file re fitz fp items cb ca =
           (Inl (Exception (''Failed to extract text from '' @ path_str fp @ '': '' @ e)), [])
    \<and> main_loop re fitz items cb ca st (fp # rest) =
        main_loop re fitz items cb ca
          (st\<lparr> journal := journal st @
                [(''Error processing '' @ path_str fp,
                  Exception (''Failed to extract text from '' @ path_str fp @ '': '' @ e))] \<rparr>)
          rest
    \<and> aggregator (main_loop re fitz items cb ca st (before @ [fp])) =
        aggregator (main_loop re fitz items cb ca st before)
    \<and> aggregator (main_loop re fitz items cb ca st (before @ fp # rest)) =
        aggregator (main_loop re fitz items cb ca st (before @ rest))
    \<and> (\<exists>j1 j2. journal (main_loop re fitz items cb ca st (before @ fp # rest)) =
          j1 @ (''Error processing '' @ path_str fp,
                Exception (''Failed to extract text from '' @ path_str fp @ '': '' @ e)) # j2)"
proof -
  let ?run = "main_loop re fitz items cb ca"
  let ?entry = "(''Error processing '' @ path_str fp,
                  Exception (''Failed to extract text from '' @ path_str fp @ '': '' @ e))"
  have pf: "process_pdf_file re fitz fp items cb ca =
           (Inl (Exception (''Failed to extract text from '' @ path_str fp @ '': '' @ e)), [])"
    using assms by (rule process_pdf_file_extraction_failure)
  have step: "\<And>s fs. ?run s (fp # fs) = ?run (s\<lparr> journal := journal s @ [?entry] \<rparr>) fs"
    by (simp add: pf)
  have one: "aggregator (?run st (before @ [fp])) = aggregator (?run st before)"
    by (simp add: main_loop_append pf)
  have skip: "aggregator (?run st (before @ fp # rest)) = aggregator (?run st (before @ rest))"
    unfolding main_loop_append step
    by (rule main_loop_aggregator_cong) simp
  have "\<exists>more. journal (?run ((?run st before)\<lparr> journal := journal (?run st before) @ [?entry] \<rparr>) rest)
      = journal ((?run st before)\<lparr> journal := journal (?run st before) @ [?entry] \<rparr>) @ more"
    by (rule main_loop_journal_prefix)
  then obtain more where
    "journal (?run st (before @ fp # rest)) = journal (?run st before) @ ?entry # more"
    unfolding main_loop_append step by auto
  then have jr: "\<exists>j1 j2. journal (?run st (before @ fp # rest)) = j1 @ ?entry # j2"
    by blast
  from pf step one skip jr show ?thesis by blast
qed

theorem extraction_failure_skips_file_witness:
  "sample_fitz (Path [] [''in'', ''bad.pdf'']) = Inl ''cannot open broken document''
   \<and> map (\<lambda>r. (file_path r, page_number r, matched_text r))
        (results (aggregator (main_loop literal_re sample_fitz [(''Invoice'', PStr ''INV-1001'')] 4 4
           (initial_state 4 4)
           [Path [] [''in'', ''a.pdf''], Path [] [''in'', ''bad.pdf''], Path [] [''in'', ''c.pdf'']])))
     = [(''in/a.pdf'', 1, ''INV-1001''), (''in/c.pdf'', 1, ''INV-1001'')]"
proof -
  have h: "sample_fitz (Path [] [''in'', ''bad.pdf'']) = Inl ''cannot open broken document''"
    by (simp add: sample_fitz_def path_name_def)
  from extraction_failure_skips_file [where fitz = sample_fitz
      and fp = "Path [] [''in'', ''bad.pdf'']" and e = "''cannot open broken document''"
      and re = literal_re and items = "[(''Invoice'', PStr ''INV-1001'')]" and cb = 4 and ca = 4
      and st = "initial_state 4 4" and before = "[Path [] [''in'', ''a.pdf'']]"
      and rest = "[Path [] [''in'', ''c.pdf'']]", OF h]
  have "aggregator (main_loop literal_re sample_fitz [(''Invoice'', PStr ''INV-1001'')] 4 4
           (initial_state 4 4)
           [Path [] [''in'', ''a.pdf''], Path [] [''in'', ''bad.pdf''], Path [] [''in'', ''c.pdf'']])
     = aggregator (main_loop literal_re sample_fitz [(''Invoice'', PStr ''INV-1001'')] 4 4
           (initial_state 4 4) [Path [] [''in'', ''a.pdf''], Path [] [''in'', ''c.pdf'']])"
    by (simp only: append_Cons append_Nil)
  then show ?thesis
    using h
    by (simp add: initial_state_def new_aggregator_def sample_fitz_def path_name_def path_str_def
        process_pdf_file_def extract_text_from_pdf_def search_text_for_patterns_def
        compile_pattern_def literal_re_def make_match_def py_slice_def Let_def add_results_def
        make_result_def)
qed


section \<open>Properties of the term loader\<close>

lemmas csv_eval =
  load_csv_terms_def plain_has_header_def has_header_def plain_reader_def text_lines_def
  plain_number_def this_type_def strip_def py_isspace_def Let_def

text \<open>
  Claim C4, as the code has it. The first row is kept exactly when the sniffer reports no
  header for the first 1024 characters of the file; when it reports one, the first row
  is skipped whatever it contains. For the file of the two rows \<^verbatim>\<open>A,foo\<close> and
  \<^verbatim>\<open>B,bar\<close> the heuristic of the library reports no header, and the term set is
  \<^verbatim>\<open>{A: foo, B: bar}\<close>.
\<close>

theorem csv_first_row_kept_unless_header_detected:
  "(hh (take 1024 content) = Inr False \<longrightarrow>
      load_csv_terms hh reader (Inr content) = Inr (csv_rows_loop [] (reader content)))
   \<and> (hh (take 1024 content) = Inr True \<longrightarrow> reader content = row # rows \<longrightarrow>
      load_csv_terms hh reader (Inr content) = Inr (csv_rows_loop [] rows))
   \<and> load_csv_terms plain_has_header plain_reader (Inr ''A,foo\<newline>B,bar\<newline>'') =
      Inr [(PStr ''A'', PStr ''foo''), (PStr ''B'', PStr ''bar'')]"
proof -
  have a: "hh (take 1024 content) = Inr False \<longrightarrow>
      load_csv_terms hh reader (Inr content) = Inr (csv_rows_loop [] (reader content))"
    by (simp add: load_csv_terms_def)
  have b: "hh (take 1024 content) = Inr True \<longrightarrow> reader content = row # rows \<longrightarrow>
      load_csv_terms hh reader (Inr content) = Inr (csv_rows_loop [] rows)"
    by (simp add: load_csv_terms_def)
  have c: "load_csv_terms plain_has_header plain_reader (Inr ''A,foo\<newline>B,bar\<newline>'') =
      Inr [(PStr ''A'', PStr ''foo''), (PStr ''B'', PStr ''bar'')]"
    by (simp add: csv_eval key_eq_def)
  from a b c show ?thesis by blast
qed

text \<open>
  Two files without a header row whose first row is dropped: a file of one row (a column
  that never got a type votes for a header), and a file of two rows in which the cells
  of the first row are longer than those of the second.
\<close>

theorem csv_first_row_dropped_counterexample:
  "plain_reader ''A,foo\<newline>'' = [[''A'', ''foo'']]
   \<and> load_csv_terms plain_has_header plain_reader (Inr ''A,foo\<newline>'') = Inr []
   \<and> plain_reader ''Invoice,INV-1001\<newline>Name,[A-Z]+\<newline>'' =
       [[''Invoice'', ''INV-1001''], [''Name'', ''[A-Z]+'']]
   \<and> load_csv_terms plain_has_header plain_reader
        (Inr ''Invoice,INV-1001\<newline>Name,[A-Z]+\<newline>'') =
       Inr [(PStr ''Name'', PStr ''[A-Z]+'')]"
  by (simp add: csv_eval key_eq_def)

lemma rfind_lower: "- 1 \<le> rfind s c"
  by (induction s) (auto simp: Let_def)

lemma rfind_absent: "rfind s c < 0 \<Longrightarrow> c \<notin> set s"
  by (induction s) (auto simp: Let_def split: if_splits)

lemma rfind_found:
  "0 \<le> rfind s c \<Longrightarrow>
   nat (rfind s c) < length s \<and> s ! nat (rfind s c) = c \<and> c \<notin> set (drop (Suc (nat (rfind s c))) s)"
proof (induction s)
  case Nil
  then show ?case by simp
next
  case (Cons x xs)
  show ?case
  proof (cases "0 \<le> rfind xs c")
    case True
    with Cons.IH have ih: "nat (rfind xs c) < length xs" "xs ! nat (rfind xs c) = c"
      "c \<notin> set (drop (Suc (nat (rfind xs c))) xs)" by simp_all
    from True have r: "rfind (x # xs) c = rfind xs c + 1" by (simp add: Let_def)
    from True have n: "nat (rfind xs c + 1) = Suc (nat (rfind xs c))" by simp
    show ?thesis unfolding r n using ih by simp
  next
    case False
    then have neg: "rfind xs c < 0" by simp
    with Cons.prems have xc: "x = c" and r: "rfind (x # xs) c = 0"
      by (auto simp: Let_def split: if_splits)
    from rfind_absent [OF neg] show ?thesis unfolding r using xc by simp
  qed
qed

lemma path_suffix_shape:
  "path_suffix p = [] \<or>
   (\<exists>stem ext. path_name p = stem @ CHR ''.'' # ext \<and> stem \<noteq> [] \<and> ext \<noteq> []
      \<and> CHR ''.'' \<notin> set ext \<and> path_suffix p = CHR ''.'' # ext)"
proof (cases "path_suffix p = []")
  case True
  then show ?thesis by simp
next
  case False
  let ?name = "path_name p"
  let ?i = "rfind ?name CHR ''.''"
  from False have i: "0 < ?i" "?i < int (length ?name) - 1"
    by (auto simp: path_suffix_def Let_def split: if_splits)
  then have sfx: "path_suffix p = drop (nat ?i) ?name"
    by (simp add: path_suffix_def Let_def py_slice_nonneg)
  from i have "0 \<le> ?i" by simp
  from rfind_found [OF this] have f: "nat ?i < length ?name" "?name ! nat ?i = CHR ''.''"
    "CHR ''.'' \<notin> set (drop (Suc (nat ?i)) ?name)" by simp_all
  let ?stem = "take (nat ?i) ?name" and ?ext = "drop (Suc (nat ?i)) ?name"
  have d: "drop (nat ?i) ?name = CHR ''.'' # ?ext"
    using f(1,2) by (metis Cons_nth_drop_Suc)
  have n: "?name = ?stem @ CHR ''.'' # ?ext"
    using d by (metis append_take_drop_id)
  have s: "?stem \<noteq> []" using i f(1) by auto
  have e: "?ext \<noteq> []" using i by auto
  from n s e f(3) sfx d show ?thesis by metis
qed

text \<open>
  Claim C7. A source whose path does not exist is rejected with
  \<^verbatim>\<open>FileNotFoundError\<close>; an existing source whose lower-cased suffix is neither
  \<^verbatim>\<open>.json\<close> nor \<^verbatim>\<open>.csv\<close> is rejected with a \<^verbatim>\<open>ValueError\<close> whose message
  contains that suffix; with one of the two suffixes the result is that of the loader of
  the format, which does not look at the name. The suffix is empty or the last dot of
  the file name with what follows it, when the dot is neither the first nor the last
  character of the name.
\<close>

theorem load_term_list_rejections:
  "(fs (parse_path fp) = None \<longrightarrow>
      load_term_list fs jl hh rd fp = Inl (FileNotFoundError (''Term list file not found: '' @ fp)))
   \<and> (fs (parse_path fp) = Some opened \<longrightarrow>
        lower (path_suffix (parse_path fp)) \<noteq> ''.json'' \<longrightarrow>
        lower (path_suffix (parse_path fp)) \<noteq> ''.csv'' \<longrightarrow>
      load_term_list fs jl hh rd fp =
        Inl (ValueError (''Unsupported file format: '' @ lower (path_suffix (parse_path fp)) @
               ''. Use .json or .csv'')))
   \<and> (fs (parse_path fp) = Some opened \<longrightarrow> lower (path_suffix (parse_path fp)) = ''.json'' \<longrightarrow>
      load_term_list fs jl hh rd fp = load_json_terms jl opened)
   \<and> (fs (parse_path fp) = Some opened \<longrightarrow> lower (path_suffix (parse_path fp)) = ''.csv'' \<longrightarrow>
      load_term_list fs jl hh rd fp = load_csv_terms hh rd opened)
   \<and> (path_suffix (parse_path fp) = [] \<or>
       (\<exists>stem ext. path_name (parse_path fp) = stem @ CHR ''.'' # ext \<and> stem \<noteq> [] \<and> ext \<noteq> []
          \<and> CHR ''.'' \<notin> set ext \<and> path_suffix (parse_path fp) = CHR ''.'' # ext))"
  using path_suffix_shape [of "parse_path fp"]
  by (simp add: load_term_list_def Let_def)

text \<open>
  Claim C10. When the JSON document is a single object, the loader returns its items as
  they are, in order, with nothing trimmed, checked or skipped; a CSV row instead
  contributes its two trimmed cells, and only when both are non-empty.
\<close>

theorem json_object_returned_verbatim:
  "(json_load content = Inr (PDict kvs) \<longrightarrow>
      load_json_terms json_load (Inr content) = Inr kvs)
   \<and> csv_rows_loop d ([n, p] # rows) =
       (if strip n \<noteq> [] \<and> strip p \<noteq> []
        then csv_rows_loop (dict_store d (PStr (strip n)) (PStr (strip p))) rows
        else csv_rows_loop d rows)"
  by (simp add: load_json_terms_def Let_def)


theorem csv_first_row_kept_unless_header_detected_witness:
  "plain_has_header (take 1024 ''A,foo\<newline>B,bar\<newline>'') = Inr False
   \<and> load_csv_terms plain_has_header plain_reader (Inr ''A,foo\<newline>B,bar\<newline>'') =
       Inr (csv_rows_loop [] (plain_reader ''A,foo\<newline>B,bar\<newline>''))
   \<and> plain_has_header (take 1024 ''name,pattern\<newline>A,foo\<newline>B,bar\<newline>'') = Inr True
   \<and> plain_reader ''name,pattern\<newline>A,foo\<newline>B,bar\<newline>'' =
       [''name'', ''pattern''] # [[''A'', ''foo''], [''B'', ''bar'']]
   \<and> load_csv_terms plain_has_header plain_reader
         (Inr ''name,pattern\<newline>A,foo\<newline>B,bar\<newline>'') =
       Inr (csv_rows_loop [] [[''A'', ''foo''], [''B'', ''bar'']])"
proof -
  let ?c1 = "''A,foo\<newline>B,bar\<newline>''"
  let ?c2 = "''name,pattern\<newline>A,foo\<newline>B,bar\<newline>''"
  have h1: "plain_has_header (take 1024 ?c1) = Inr False"
    by (simp add: csv_eval)
  have h2: "plain_has_header (take 1024 ?c2) = Inr True"
    by (simp add: csv_eval)
  have h3: "plain_reader ?c2 = [''name'', ''pattern''] # [[''A'', ''foo''], [''B'', ''bar'']]"
    by (simp add: csv_eval)
  from csv_first_row_kept_unless_header_detected [of plain_has_header ?c1 plain_reader] h1
  have r1: "load_csv_terms plain_has_header plain_reader (Inr ?c1) =
       Inr (csv_rows_loop [] (plain_reader ?c1))"
    by blast
  from csv_first_row_kept_unless_header_detected [of plain_has_header ?c2 plain_reader
      "[''name'', ''pattern'']" "[[''A'', ''foo''], [''B'', ''bar'']]"] h2 h3
  have r2: "load_csv_terms plain_has_header plain_reader (Inr ?c2) =
       Inr (csv_rows_loop [] [[''A'', ''foo''], [''B'', ''bar'']])"
    by blast
  from h1 h2 h3 r1 r2 show ?thesis by blast
qed

theorem load_term_list_rejections_witness:
  "sample_fs (parse_path ''conf/missing.json'') = None
   \<and> load_term_list sample_fs sample_json_load plain_has_header plain_reader ''conf/missing.json'' =
       Inl (FileNotFoundError ''Term list file not found: conf/missing.json'')
   \<and> sample_fs (parse_path ''conf/terms.TXT'') = Some (Inr ''A,foo'')
   \<and> load_term_list sample_fs sample_json_load plain_has_header plain_reader ''conf/terms.TXT'' =
       Inl (ValueError ''Unsupported file format: .txt. Use .json or .csv'')
   \<and> load_term_list sample_fs sample_json_load plain_has_header plain_reader ''conf/terms.JSON'' =
       load_json_terms sample_json_load (Inr ''{}'')
   \<and> load_term_list sample_fs sample_json_load plain_has_header plain_reader ''conf/terms.csv'' =
       load_csv_terms plain_has_header plain_reader (Inr ''A,foo\<newline>B,bar\<newline>'')"
proof -
  note ev = parse_path_def path_str_def sample_fs_def path_suffix_def path_name_def
    py_slice_def lower_def lower_char_def Let_def
  have m: "sample_fs (parse_path ''conf/missing.json'') = None"
    by (simp add: ev)
  have t: "sample_fs (parse_path ''conf/terms.TXT'') = Some (Inr ''A,foo'')"
    by (simp add: ev)
  have ts: "lower (path_suffix (parse_path ''conf/terms.TXT'')) = ''.txt''"
    by code_simp
  have j: "sample_fs (parse_path ''conf/terms.JSON'') = Some (Inr ''{}'')"
    by (simp add: ev)
  have js: "lower (path_suffix (parse_path ''conf/terms.JSON'')) = ''.json''"
    by code_simp
  have c: "sample_fs (parse_path ''conf/terms.csv'') = Some (Inr ''A,foo\<newline>B,bar\<newline>'')"
    by (simp add: ev)
  have cs: "lower (path_suffix (parse_path ''conf/terms.csv'')) = ''.csv''"
    by (simp add: ev)
  have r1: "load_term_list sample_fs sample_json_load plain_has_header plain_reader ''conf/missing.json'' =
       Inl (FileNotFoundError ''Term list file not found: conf/missing.json'')"
    using load_term_list_rejections [of sample_fs "''conf/missing.json''"
        sample_json_load plain_has_header plain_reader] m
    by simp
  have r2: "load_term_list sample_fs sample_json_load plain_has_header plain_reader ''conf/terms.TXT'' =
       Inl (ValueError ''Unsupported file format: .txt. Use .json or .csv'')"
    using load_term_list_rejections [of sample_fs "''conf/terms.TXT''"
        sample_json_load plain_has_header plain_reader "Inr ''A,foo''"] t ts
    by simp
  have r3: "load_term_list sample_fs sample_json_load plain_has_header plain_reader ''conf/terms.JSON'' =
       load_json_terms sample_json_load (Inr ''{}'')"
    using load_term_list_rejections [of sample_fs "''conf/terms.JSON''"
        sample_json_load plain_has_header plain_reader "Inr ''{}''"] j js
    by simp
  have r4: "load_term_list sample_fs sample_json_load plain_has_header plain_reader ''conf/terms.csv'' =
       load_csv_terms plain_has_header plain_reader (Inr ''A,foo\<newline>B,bar\<newline>'')"
    using load_term_list_rejections [of sample_fs "''conf/terms.csv''"
        sample_json_load plain_has_header plain_reader "Inr ''A,foo\<newline>B,bar\<newline>''"] c cs
    by simp
  from m t r1 r2 r3 r4 show ?thesis by blast
qed

theorem json_object_returned_verbatim_witness:
  "sample_json_load ''{}'' =
     Inr (PDict [(PStr '' A '', PStr '' foo ''), (PStr [], PStr ''x''), (PStr ''B'', PStr [])])
   \<and> load_json_terms sample_json_load (Inr ''{}'') =
     Inr [(PStr '' A '', PStr '' foo ''), (PStr [], PStr ''x''), (PStr ''B'', PStr [])]
   \<and> csv_rows_loop [] [['' A '', '' foo ''], [[], ''x''], [''B'', []]] =
     [(PStr ''A'', PStr ''foo'')]"
proof -
  have h: "sample_json_load ''{}'' =
     Inr (PDict [(PStr '' A '', PStr '' foo ''), (PStr [], PStr ''x''), (PStr ''B'', PStr [])])"
    by (simp add: sample_json_load_def)
  from json_object_returned_verbatim [of sample_json_load "''{}''"
      "[(PStr '' A '', PStr '' foo ''), (PStr [], PStr ''x''), (PStr ''B'', PStr [])]"] h
  have r: "load_json_terms sample_json_load (Inr ''{}'') =
     Inr [(PStr '' A '', PStr '' foo ''), (PStr [], PStr ''x''), (PStr ''B'', PStr [])]"
    by blast
  have c: "csv_rows_loop [] [['' A '', '' foo ''], [[], ''x''], [''B'', []]] =
     [(PStr ''A'', PStr ''foo'')]"
    by (simp add: strip_def py_isspace_def Let_def)
  from h r c show ?thesis by blast
qed


section \<open>Properties of the file scanner\<close>










text \<open>
  Under the case-sensitive matching of a POSIX system the file \<^verbatim>\<open>X.PDF\<close> is not
  found by the extension \<^verbatim>\<open>.pdf\<close>; with the extension \<^verbatim>\<open>.**\<close> the scanner raises.
\<close>

lemma scan_directory_posix_case_sensitive:
  "scan_directory (tree_fs sample_tree) ''docs'' [''.pdf''] False =
     Inr [Path [] [''docs'', ''a.pdf''], Path [] [''docs'', ''b.pdf'']]"
  by code_simp

lemma scan_directory_raises:
  "scan_directory (tree_fs sample_tree) ''docs'' [''.pdf'', ''.**''] False =
     Inl (ValueError (''Invalid pattern: '' @ [CHR 0x27] @ ''**'' @ [CHR 0x27] @
            '' can only be an entire path component''))"
  by code_simp



end
